theory Spec2Isabelle
  imports Complex_Main "HOL-Library.Word"
begin

unbundle bit_operations_syntax

section \<open>Single precision arithmetic\<close>

text \<open>
  The scene of \<^verbatim>\<open>Minimal/main.cpp\<close> computes with \<^verbatim>\<open>float\<close>. Here a \<^verbatim>\<open>float\<close> is the
  real number it denotes, and every operation on floats returns the rounding of the exact
  result: \<open>fl\<close> is that rounding, a parameter of the model, and the theorems hold for every
  \<open>fl\<close>. \<open>float32_round\<close> is the rounding of IEEE 754 single precision (to nearest, ties
  to even, with subnormal numbers); calls on concrete inputs are evaluated with it.
  Infinities and NaN have no counterpart here. A literal such as \<^verbatim>\<open>0.055f\<close> is the float
  nearest to the decimal. Time is measured in \<^verbatim>\<open>double\<close>, a \<^typ>\<open>real\<close> here.
\<close>

type_synonym rounding = "real \<Rightarrow> real"

definition float32_round :: rounding where
  "float32_round x =
     (if x = 0 then 0
      else let u = 2 powr (real_of_int (max \<lfloor>log 2 \<bar>x\<bar>\<rfloor> (- 126)) - 23);
               n = \<lfloor>x / u\<rfloor>
           in (if x / u - real_of_int n < 1 / 2 \<or> (x / u - real_of_int n = 1 / 2 \<and> even n)
               then real_of_int n else real_of_int n + 1) * u)"

definition float_0_055 :: real where
  \<comment> \<open>the value of the literal \<^verbatim>\<open>0.055f\<close> of line 871\<close>
  "float_0_055 = 7381975 / 134217728"

definition float_0_14 :: real where
  \<comment> \<open>the value of the literal \<^verbatim>\<open>0.14f\<close> of lines 638 to 640\<close>
  "float_0_14 = 9395241 / 67108864"

section \<open>Vectors and matrices of the scene\<close>

text \<open>
  A \<^verbatim>\<open>glm::mat4\<close> is stored by columns, and so is \<open>mat4\<close>. The header of GLM is not
  part of the source; the products are computed in the order of GLM's scalar code.
\<close>

type_synonym vec3 = "real \<times> real \<times> real"
type_synonym vec4 = "real \<times> real \<times> real \<times> real"
type_synonym mat4 = "vec4 \<times> vec4 \<times> vec4 \<times> vec4"

definition vec4_add :: "rounding \<Rightarrow> vec4 \<Rightarrow> vec4 \<Rightarrow> vec4" where
  "vec4_add fl a b =
     (case a of (ax, ay, az, aw) \<Rightarrow> case b of (bx, by, bz, bw) \<Rightarrow>
        (fl (ax + bx), fl (ay + by), fl (az + bz), fl (aw + bw)))"

definition vec4_scale :: "rounding \<Rightarrow> vec4 \<Rightarrow> real \<Rightarrow> vec4" where
  "vec4_scale fl a k =
     (case a of (ax, ay, az, aw) \<Rightarrow> (fl (ax * k), fl (ay * k), fl (az * k), fl (aw * k)))"

definition mat4_identity :: mat4 where
  \<comment> \<open>\<^verbatim>\<open>glm::mat4(1.0f)\<close>\<close>
  "mat4_identity = ((1, 0, 0, 0), (0, 1, 0, 0), (0, 0, 1, 0), (0, 0, 0, 1))"

definition mat4_mul_vec4 :: "rounding \<Rightarrow> mat4 \<Rightarrow> vec4 \<Rightarrow> vec4" where
  \<comment> \<open>\<^verbatim>\<open>m * v\<close>: the combination of the columns of \<open>m\<close> with the components of \<open>v\<close>,
      added in pairs\<close>
  "mat4_mul_vec4 fl m v =
     (case m of (c0, c1, c2, c3) \<Rightarrow> case v of (x, y, z, w) \<Rightarrow>
        vec4_add fl (vec4_add fl (vec4_scale fl c0 x) (vec4_scale fl c1 y))
                    (vec4_add fl (vec4_scale fl c2 z) (vec4_scale fl c3 w)))"

definition mat4_mul_column :: "rounding \<Rightarrow> mat4 \<Rightarrow> vec4 \<Rightarrow> vec4" where
  \<comment> \<open>one column of \<^verbatim>\<open>a * b\<close>: the columns of \<open>a\<close> by the components of a column of
      \<open>b\<close>, added from the left\<close>
  "mat4_mul_column fl a v =
     (case a of (a0, a1, a2, a3) \<Rightarrow> case v of (x, y, z, w) \<Rightarrow>
        vec4_add fl
          (vec4_add fl (vec4_add fl (vec4_scale fl a0 x) (vec4_scale fl a1 y))
             (vec4_scale fl a2 z))
          (vec4_scale fl a3 w))"

definition mat4_mul :: "rounding \<Rightarrow> mat4 \<Rightarrow> mat4 \<Rightarrow> mat4" where
  \<comment> \<open>\<^verbatim>\<open>a * b\<close>\<close>
  "mat4_mul fl a b =
     (case b of (b0, b1, b2, b3) \<Rightarrow>
        (mat4_mul_column fl a b0, mat4_mul_column fl a b1, mat4_mul_column fl a b2,
         mat4_mul_column fl a b3))"

definition translate :: "vec3 \<Rightarrow> mat4" where
  \<comment> \<open>\<^verbatim>\<open>glm::translate(glm::mat4(1.0f), v)\<close>; the products by 0 and 1 and the sums
      with 0 that GLM computes for it are exact\<close>
  "translate v = (case v of (x, y, z) \<Rightarrow>
     ((1, 0, 0, 0), (0, 1, 0, 0), (0, 0, 1, 0), (x, y, z, 1)))"

definition twice_product :: "rounding \<Rightarrow> real \<Rightarrow> real \<Rightarrow> real" where
  \<comment> \<open>the float that \<^verbatim>\<open>2 * a*b\<close> denotes: C++ multiplies from the left\<close>
  "twice_product fl a b = fl (fl (2 * a) * b)"

definition quat_rotate :: "rounding \<Rightarrow> vec4 \<Rightarrow> mat4" where
  \<comment> \<open>the rotation matrix of lines 821 to 829, from the quaternion \<open>(x, y, z, w)\<close>;
      the sixteen arguments of the \<^verbatim>\<open>glm::mat4\<close> constructor fill it column by column\<close>
  "quat_rotate fl q = (case q of (x, y, z, w) \<Rightarrow>
     ((fl (fl (1 - twice_product fl y y) - twice_product fl z z),
       fl (twice_product fl x y + twice_product fl w z),
       fl (twice_product fl x z - twice_product fl w y), 0),
      (fl (twice_product fl x y - twice_product fl w z),
       fl (fl (1 - twice_product fl x x) - twice_product fl z z),
       fl (twice_product fl y z + twice_product fl w x), 0),
      (fl (twice_product fl x z + twice_product fl w y),
       fl (twice_product fl y z - twice_product fl w x),
       fl (fl (1 - twice_product fl x x) - twice_product fl y y), 0),
      (0, 0, 0, 1)))"

definition transform_point :: "rounding \<Rightarrow> mat4 \<Rightarrow> vec3 \<Rightarrow> vec3" where
  \<comment> \<open>\<^verbatim>\<open>glm::vec3(m * glm::vec4(pos, 1.0f))\<close>, line 863\<close>
  "transform_point fl m p = (case p of (px, py, pz) \<Rightarrow>
     (case mat4_mul_vec4 fl m (px, py, pz, 1) of (x, y, z, w) \<Rightarrow> (x, y, z)))"

definition center_distance :: "rounding \<Rightarrow> vec3 \<Rightarrow> vec3 \<Rightarrow> real" where
  \<comment> \<open>the center-distance \<^verbatim>\<open>dist\<close> of lines 864 to 866: the differences, the
      products and the sums are floats, added from the left, and the root is stored in a
      float\<close>
  "center_distance fl pos hand =
     (case pos of (px, py, pz) \<Rightarrow> case hand of (hx, hy, hz) \<Rightarrow>
        fl (sqrt (fl (fl (fl (fl (px - hx) * fl (px - hx)) + fl (fl (py - hy) * fl (py - hy)))
                      + fl (fl (pz - hz) * fl (pz - hz))))))"

section \<open>The grid of spheres\<close>

definition GRID_SIZE :: nat where
  "GRID_SIZE = 5"

definition NUM_SPHERES :: nat where
  "NUM_SPHERES = 125"

definition spheres_positions :: "rounding \<Rightarrow> vec3 list" where
  \<comment> \<open>the constructor of \<^verbatim>\<open>ColorSphereScene\<close>: \<open>z\<close> outermost, \<open>x\<close> innermost\<close>
  "spheres_positions fl =
     concat (map (\<lambda>z. concat (map (\<lambda>y. map (\<lambda>x.
       (fl (float_0_14 * real x), fl (float_0_14 * real y), fl (float_0_14 * real z)))
       [0..<GRID_SIZE]) [0..<GRID_SIZE])) [0..<GRID_SIZE])"

definition sphere_position :: "rounding \<Rightarrow> int \<Rightarrow> vec3 option" where
  \<comment> \<open>\<^verbatim>\<open>sphereScene->spheres_positions[selectedSphere]\<close>: a \<^verbatim>\<open>std::vector\<close> read
      is defined only inside the vector; \<open>None\<close> is the read out of bounds\<close>
  "sphere_position fl i =
     (if 0 \<le> i \<and> i < int (length (spheres_positions fl))
      then Some (spheres_positions fl ! nat i) else None)"

section \<open>The state of the game\<close>

text \<open>
  The fields of \<^verbatim>\<open>ExampleApp\<close> that the game logic reads and writes. \<open>selectedSphere\<close>
  and \<open>score\<close> are C++ \<^verbatim>\<open>int\<close>s; the values they take in a run (the index \<open>-1\<close> or a
  remainder modulo 125, a count of hits) stay far from the bounds of 32 bits, so they are
  integers here. \<open>start\<close> is a \<^verbatim>\<open>clock_t\<close> in ticks.
\<close>

record ExampleApp =
  GameState :: bool
  selectedSphere :: int
  collider :: bool
  start :: int
  duration :: real
  score :: int

definition ExampleApp_init :: "bool \<Rightarrow> int \<Rightarrow> real \<Rightarrow> ExampleApp" where
  \<comment> \<open>the member initialisers and the constructor; \<open>collider\<close>, \<open>start\<close> and
      \<open>duration\<close> are left uninitialised by the source, so they are arguments\<close>
  "ExampleApp_init c t d =
     \<lparr>GameState = False, selectedSphere = -1, collider = c, start = t, duration = d,
      score = 0\<rparr>"

datatype event =
    GameStart       \<comment> \<open>\<^verbatim>\<open>********* GAME START *********\<close>\<close>
  | Collide int     \<comment> \<open>\<^verbatim>\<open>Collide! Your Current Score is n\<close>\<close>
  | GameOver int    \<comment> \<open>\<^verbatim>\<open>********* GAME OVER *********\<close> and the final score\<close>

section \<open>Picking a new target\<close>

text \<open>
  \<^verbatim>\<open>random_Highlight\<close> seeds the generator with the time and draws, again and again
  while the draw equals the selected sphere. The values that \<^verbatim>\<open>rand()\<close> returns after
  each \<^verbatim>\<open>srand(time(NULL))\<close> come from the host: \<open>draws n\<close> is the \<open>n\<close>-th of them, a
  natural number as \<^verbatim>\<open>rand()\<close> is never negative. The loop has no bound in the source;
  \<open>None\<close> is the loop that never leaves.
\<close>

partial_function (option) random_number_loop ::
    "(nat \<Rightarrow> nat) \<Rightarrow> nat \<Rightarrow> int \<Rightarrow> (int \<times> nat) option" where
  "random_number_loop draws n sel =
     (if int (draws n mod 125) = sel
      then random_number_loop draws (Suc n) sel
      else Some (int (draws n mod 125), Suc n))"

definition random_Highlight ::
    "(nat \<Rightarrow> nat) \<Rightarrow> nat \<Rightarrow> ExampleApp \<Rightarrow> (ExampleApp \<times> nat) option" where
  "random_Highlight draws n s =
     (case random_number_loop draws n (selectedSphere s) of
        None \<Rightarrow> None
      | Some (random_number, n') \<Rightarrow>
          Some (s\<lparr>selectedSphere := random_number, collider := False\<rparr>, n'))"

section \<open>What one call of renderScene reads from the host\<close>

text \<open>
  \<^verbatim>\<open>renderScene\<close> runs once for each eye of every displayed frame. A call asks the
  runtime for the state of the controllers three times (lines 815, 841 and 870); each
  query may fail, which is \<open>None\<close> here, and the source reads \<^verbatim>\<open>inputState\<close> only
  after a query that succeeded. The call reads the poses of the two hands, the processor
  clock (line 847 when a round starts, line 877 while a round runs) and the draws of
  \<^verbatim>\<open>random_Highlight\<close>. The local \<^verbatim>\<open>LHOrientationPosition\<close> is declared without an
  initialiser; \<open>mat4_default\<close> is what the default constructor of \<^verbatim>\<open>glm::mat4\<close>
  leaves in it (the header of GLM is not part of the source).
\<close>

record ovrInputState =
  Buttons :: "32 word"
  Touches :: "32 word"

definition ovrButton_X :: "32 word" where
  \<comment> \<open>the value of the enumerator in \<^verbatim>\<open>OVR_CAPI.h\<close>\<close>
  "ovrButton_X = 0x100"

definition ovrTouch_RIndexTrigger :: "32 word" where
  \<comment> \<open>the value of the enumerator in \<^verbatim>\<open>OVR_CAPI.h\<close>\<close>
  "ovrTouch_RIndexTrigger = 0x10"

record frame_in =
  handPosition_Left :: vec3
  handRotation_Left :: vec4
  handPosition_Right :: vec3
  input_grab :: "ovrInputState option"
  input_start :: "ovrInputState option"
  input_hit :: "ovrInputState option"
  clock_start :: int
  clock_now :: int
  draws :: "nat \<Rightarrow> nat"
  mat4_default :: mat4

datatype 'a outcome =
    Hang           \<comment> \<open>the loop of \<^verbatim>\<open>random_Highlight\<close> never leaves\<close>
  | OutOfBounds    \<comment> \<open>\<^verbatim>\<open>spheres_positions\<close> is read outside the vector\<close>
  | Done 'a

section \<open>The body of renderScene\<close>

definition renderScene_grab :: "rounding \<Rightarrow> frame_in \<Rightarrow> mat4" where
  \<comment> \<open>lines 814 to 837: the transform of the off hand while button X is held\<close>
  "renderScene_grab fl inp =
     (case input_grab inp of
        None \<Rightarrow> mat4_default inp
      | Some st \<Rightarrow>
          if Buttons st AND ovrButton_X \<noteq> 0
          then mat4_mul fl (translate (handPosition_Left inp))
                 (quat_rotate fl (handRotation_Left inp))
          else mat4_identity)"

definition renderScene_start ::
    "frame_in \<Rightarrow> ExampleApp \<Rightarrow> (ExampleApp \<times> nat \<times> event list) option" where
  \<comment> \<open>lines 840 to 855; the result carries the number of draws used and the messages\<close>
  "renderScene_start inp s =
     (case input_start inp of
        None \<Rightarrow> Some (s, 0, [])
      | Some st \<Rightarrow>
          if GameState s = False
          then (if Touches st AND ovrTouch_RIndexTrigger \<noteq> 0
                then (case random_Highlight (draws inp) 0
                             (s\<lparr>GameState := True, start := clock_start inp\<rparr>) of
                        None \<Rightarrow> None
                      | Some (s', n) \<Rightarrow> Some (s'\<lparr>score := 0\<rparr>, n, [GameStart]))
                else Some (s, 0, []))
          else Some (s, 0, []))"

definition renderScene_active ::
    "rounding \<Rightarrow> int \<Rightarrow> frame_in \<Rightarrow> mat4 \<Rightarrow> ExampleApp \<Rightarrow>
     (ExampleApp \<times> event list) option" where
  \<comment> \<open>lines 857 to 891; \<open>cps\<close> is \<^verbatim>\<open>CLOCKS_PER_SEC\<close>, a positive constant of the C
      library whose header is not part of the source; \<open>None\<close> is the read out of bounds\<close>
  "renderScene_active fl cps inp LHOrientationPosition s =
     (if GameState s
      then (case sphere_position fl (selectedSphere s) of
              None \<Rightarrow> None
            | Some p \<Rightarrow>
                let pos = transform_point fl LHOrientationPosition p;
                    dist = center_distance fl pos (handPosition_Right inp);
                    s1 = (case input_hit inp of
                            None \<Rightarrow> s
                          | Some st \<Rightarrow>
                              if dist < float_0_055 \<and>
                                 Touches st AND ovrTouch_RIndexTrigger \<noteq> 0
                              then s\<lparr>collider := True\<rparr> else s);
                    s2 = s1\<lparr>duration := real_of_int (clock_now inp - start s1) / real_of_int cps\<rparr>
                in if duration s2 \<ge> 60
                   then Some (s2\<lparr>GameState := False, start := 0, selectedSphere := -1,
                                 score := 0\<rparr>,
                              [GameOver (score s2)])
                   else Some (s2, []))
      else Some (s, []))"

fun renderScene_spheres ::
    "(nat \<Rightarrow> nat) \<Rightarrow> nat list \<Rightarrow> ExampleApp \<times> nat \<times> event list \<Rightarrow>
     (ExampleApp \<times> nat \<times> event list) option" where
  \<comment> \<open>lines 895 to 920, one equation per pass of the loop over \<open>i\<close>; \<open>i == selectedSphere\<close>
      compares an \<^verbatim>\<open>unsigned int\<close> with an \<^verbatim>\<open>int\<close>, which C++ converts to unsigned;
      the shader switches and the draw calls leave the game state alone\<close>
  "renderScene_spheres dr [] st = Some st"
| "renderScene_spheres dr (i # is) (s, n, out) =
     (if GameState s \<and> int i = selectedSphere s mod 2 ^ 32 \<and> collider s
      then (case random_Highlight dr n s of
              None \<Rightarrow> None
            | Some (s', n') \<Rightarrow>
                renderScene_spheres dr is
                  (s'\<lparr>score := score s' + 1\<rparr>, n', out @ [Collide (score s' + 1)]))
      else renderScene_spheres dr is (s, n, out))"

definition renderScene ::
    "rounding \<Rightarrow> int \<Rightarrow> frame_in \<Rightarrow> ExampleApp \<Rightarrow> (ExampleApp \<times> event list) outcome" where
  "renderScene fl cps inp s =
     (case renderScene_start inp s of
        None \<Rightarrow> Hang
      | Some (s1, n1, out1) \<Rightarrow>
          (case renderScene_active fl cps inp (renderScene_grab fl inp) s1 of
             None \<Rightarrow> OutOfBounds
           | Some (s2, out2) \<Rightarrow>
               (case renderScene_spheres (draws inp) [0..<NUM_SPHERES] (s2, n1, out1 @ out2) of
                  None \<Rightarrow> Hang
                | Some (s3, n3, out3) \<Rightarrow> Done (s3, out3))))"

fun run_frames ::
    "rounding \<Rightarrow> int \<Rightarrow> frame_in list \<Rightarrow> ExampleApp \<Rightarrow>
     (ExampleApp \<times> event list) outcome" where
  \<comment> \<open>the calls of \<^verbatim>\<open>renderScene\<close> that the loop of \<^verbatim>\<open>GlfwApp::run\<close> makes, in order\<close>
  "run_frames fl cps [] s = Done (s, [])"
| "run_frames fl cps (inp # inps) s =
     (case renderScene fl cps inp s of
        Hang \<Rightarrow> Hang
      | OutOfBounds \<Rightarrow> OutOfBounds
      | Done (s1, out1) \<Rightarrow>
          (case run_frames fl cps inps s1 of
             Hang \<Rightarrow> Hang
           | OutOfBounds \<Rightarrow> OutOfBounds
           | Done (s2, out2) \<Rightarrow> Done (s2, out1 @ out2)))"

section \<open>Properties of states and of message traces\<close>

definition game_inv :: "ExampleApp \<Rightarrow> bool" where
  \<comment> \<open>what holds of the state between two calls of \<^verbatim>\<open>renderScene\<close>\<close>
  "game_inv s \<longleftrightarrow>
     (GameState s = False \<longleftrightarrow> selectedSphere s = -1) \<and>
     (GameState s \<longrightarrow> 0 \<le> selectedSphere s \<and> selectedSphere s < 125 \<and> \<not> collider s)"

definition trigger_touched :: "ovrInputState option \<Rightarrow> bool" where
  \<comment> \<open>the query succeeded and reports the right index trigger touched\<close>
  "trigger_touched q =
     (case q of None \<Rightarrow> False | Some st \<Rightarrow> Touches st AND ovrTouch_RIndexTrigger \<noteq> 0)"

definition target_distance :: "rounding \<Rightarrow> frame_in \<Rightarrow> ExampleApp \<Rightarrow> real" where
  \<comment> \<open>\<^verbatim>\<open>dist\<close> of lines 861 to 866 for a selected index inside the vector\<close>
  "target_distance fl inp s =
     center_distance fl
       (transform_point fl (renderScene_grab fl inp)
          (spheres_positions fl ! nat (selectedSphere s)))
       (handPosition_Right inp)"

definition collision :: "rounding \<Rightarrow> frame_in \<Rightarrow> ExampleApp \<Rightarrow> bool" where
  \<comment> \<open>the test of lines 870 and 871 under the grab transform of the same call\<close>
  "collision fl inp s \<longleftrightarrow>
     target_distance fl inp s < float_0_055 \<and> trigger_touched (input_hit inp)"

definition elapsed :: "int \<Rightarrow> frame_in \<Rightarrow> ExampleApp \<Rightarrow> real" where
  \<comment> \<open>\<^verbatim>\<open>duration\<close> of line 877: the seconds since the round started\<close>
  "elapsed cps inp s = real_of_int (clock_now inp - start s) / real_of_int cps"

definition started :: "frame_in \<Rightarrow> ExampleApp \<Rightarrow> ExampleApp" where
  \<comment> \<open>the state that lines 845 to 852 leave when no target was selected before\<close>
  "started inp s =
     s\<lparr>GameState := True, start := clock_start inp,
       selectedSphere := int (draws inp 0 mod 125), collider := False, score := 0\<rparr>"

fun rounds :: "bool \<Rightarrow> event list \<Rightarrow> bool option" where
  \<comment> \<open>follows a trace of messages from the flag \<open>a\<close> (a round is running): a round
      starts only when none runs, hits and the end of a round occur only while one runs;
      the result is the flag after the trace, \<open>None\<close> for a trace out of this order\<close>
  "rounds a [] = Some a"
| "rounds a (GameStart # es) = (if a then None else rounds True es)"
| "rounds a (Collide k # es) = (if a then rounds True es else None)"
| "rounds a (GameOver k # es) = (if a then rounds False es else None)"

section \<open>The key handler\<close>

text \<open>
  The key codes are those of \<^verbatim>\<open>GLFW/glfw3.h\<close>. The handler acts on the window (the
  close flag) and on the session of the runtime (recentring the tracking origin, counted
  here); it has no access to the game state, which \<open>game\<close> carries along.
\<close>

definition GLFW_PRESS :: int where
  "GLFW_PRESS = 1"

definition GLFW_KEY_ESCAPE :: int where
  "GLFW_KEY_ESCAPE = 256"

definition GLFW_KEY_R :: int where
  "GLFW_KEY_R = 82"

record app_state =
  windowShouldClose :: bool
  recenterings :: nat
  game :: ExampleApp

definition GlfwApp_onKey :: "int \<Rightarrow> int \<Rightarrow> int \<Rightarrow> int \<Rightarrow> app_state \<Rightarrow> app_state" where
  \<comment> \<open>lines 280 to 290\<close>
  "GlfwApp_onKey key scancode action mods a =
     (if GLFW_PRESS \<noteq> action then a
      else if key = GLFW_KEY_ESCAPE then a\<lparr>windowShouldClose := True\<rparr>
      else a)"

definition RiftApp_onKey :: "int \<Rightarrow> int \<Rightarrow> int \<Rightarrow> int \<Rightarrow> app_state \<Rightarrow> app_state" where
  \<comment> \<open>lines 545 to 554, the handler of the application: \<^verbatim>\<open>ExampleApp\<close> does not
      override it\<close>
  "RiftApp_onKey key scancode action mods a =
     (if GLFW_PRESS = action \<and> key = GLFW_KEY_R
      then a\<lparr>recenterings := Suc (recenterings a)\<rparr>
      else GlfwApp_onKey key scancode action mods a)"

section \<open>The frame loop and the error callback\<close>

text \<open>
  \<^verbatim>\<open>GlfwApp\<close> registers \<^verbatim>\<open>ErrorCallback\<close> with the windowing library (line 190), which
  calls it when one of its functions fails. The callback throws (lines 315 to 317), and
  neither \<^verbatim>\<open>run\<close> nor \<^verbatim>\<open>main\<close> catches: a throw ends the process. One pass of the loop
  of \<^verbatim>\<open>GlfwApp::run\<close> (lines 214 to 220) polls the events, which reach the callbacks,
  draws, which calls \<^verbatim>\<open>renderScene\<close> for the left eye and then for the right eye, and
  swaps the buffers. The calls into the runtime that \<^verbatim>\<open>RiftApp::draw\<close> makes around
  the two eyes do not have their results read.
\<close>

datatype 'a raising =
    Throws string    \<comment> \<open>\<^verbatim>\<open>throw std::runtime_error(X)\<close>, the macro \<^verbatim>\<open>FAIL\<close>\<close>
  | Normal 'a

datatype glfw_event =
    KeyEvent int int int int    \<comment> \<open>a key event, handed to \<^verbatim>\<open>KeyCallback\<close>\<close>
  | ErrorEvent int string       \<comment> \<open>a failure of the library, handed to \<^verbatim>\<open>ErrorCallback\<close>\<close>

definition ErrorCallback :: "int \<Rightarrow> string \<Rightarrow> 'a raising" where
  \<comment> \<open>lines 315 to 317\<close>
  "ErrorCallback error description = Throws description"

fun glfwPollEvents :: "glfw_event list \<Rightarrow> app_state \<Rightarrow> app_state raising" where
  \<comment> \<open>the callbacks that one \<^verbatim>\<open>glfwPollEvents()\<close> runs, in the order of the events\<close>
  "glfwPollEvents [] a = Normal a"
| "glfwPollEvents (KeyEvent key scancode action mods # es) a =
     glfwPollEvents es (RiftApp_onKey key scancode action mods a)"
| "glfwPollEvents (ErrorEvent error description # es) a = ErrorCallback error description"

definition finishFrame :: "(int \<times> string) option \<Rightarrow> unit raising" where
  \<comment> \<open>lines 270 to 272: \<^verbatim>\<open>glfwSwapBuffers(window)\<close>, which may fail\<close>
  "finishFrame failure =
     (case failure of
        None \<Rightarrow> Normal ()
      | Some (error, description) \<Rightarrow> ErrorCallback error description)"

record pass_in =
  polled :: "glfw_event list"
  left_eye :: frame_in
  right_eye :: frame_in
  swap_failure :: "(int \<times> string) option"

definition run_pass ::
    "rounding \<Rightarrow> int \<Rightarrow> pass_in \<Rightarrow> app_state \<Rightarrow> (app_state \<times> event list) outcome raising" where
  \<comment> \<open>lines 215 to 219; \<^verbatim>\<open>update()\<close> is empty\<close>
  "run_pass fl cps p a =
     (case glfwPollEvents (polled p) a of
        Throws msg \<Rightarrow> Throws msg
      | Normal a1 \<Rightarrow>
          (case run_frames fl cps [left_eye p, right_eye p] (game a1) of
             Hang \<Rightarrow> Normal Hang
           | OutOfBounds \<Rightarrow> Normal OutOfBounds
           | Done (g, out) \<Rightarrow>
               (case finishFrame (swap_failure p) of
                  Throws msg \<Rightarrow> Throws msg
                | Normal u \<Rightarrow> Normal (Done (a1\<lparr>game := g\<rparr>, out)))))"

section \<open>Concrete inputs\<close>

text \<open>A state and calls on which the theorems below are evaluated.\<close>

definition touching :: ovrInputState where
  "touching = \<lparr>Buttons = 0, Touches = ovrTouch_RIndexTrigger\<rparr>"

definition example_frame :: "vec3 \<Rightarrow> ovrInputState option \<Rightarrow> int \<Rightarrow> frame_in" where
  \<comment> \<open>the right hand at \<open>hand\<close>, the three queries answering \<open>q\<close>, the clock at \<open>now\<close>\<close>
  "example_frame hand q now =
     \<lparr>handPosition_Left = (0, 0, 0), handRotation_Left = (0, 0, 0, 1),
      handPosition_Right = hand, input_grab = q, input_start = q, input_hit = q,
      clock_start = now, clock_now = now, draws = (\<lambda>n. n + 7),
      mat4_default = mat4_identity\<rparr>"

definition example_active :: ExampleApp where
  \<comment> \<open>a round started at tick 0, five hits so far, the sphere at the origin selected\<close>
  "example_active =
     \<lparr>GameState = True, selectedSphere = 0, collider = False, start = 0, duration = 0,
      score = 5\<rparr>"

definition example_round :: ExampleApp where
  \<comment> \<open>a round just started at tick 500 with sphere 7 selected\<close>
  "example_round =
     \<lparr>GameState = True, selectedSphere = 7, collider = False, start = 500, duration = 0,
      score = 0\<rparr>"

section \<open>Facts about the target pick\<close>

lemma random_number_loop_result_pair:
  "random_number_loop dr n sel = Some y \<Longrightarrow>
     0 \<le> fst y \<and> fst y < 125 \<and> fst y \<noteq> sel \<and> n < snd y \<and>
     fst y = int (dr (snd y - 1) mod 125)"
proof (induction rule: random_number_loop.raw_induct[rotated 1, consumes 1])
  case (1 loop dr n sel y)
  show ?case
  proof (cases "int (dr n mod 125) = sel")
    case True
    with 1(2) have "loop dr (Suc n) sel = Some y" by simp
    from 1(1)[OF this] show ?thesis by auto
  next
    case False
    with 1(2) show ?thesis by auto
  qed
qed

lemma random_number_loop_result:
  "random_number_loop dr n sel = Some (r, n') \<Longrightarrow>
     0 \<le> r \<and> r < 125 \<and> r \<noteq> sel \<and> n < n' \<and> r = int (dr (n' - 1) mod 125)"
  using random_number_loop_result_pair[of dr n sel "(r, n')"] by simp

lemma random_number_loop_skip:
  "int (dr n mod 125) = sel \<Longrightarrow>
     random_number_loop dr n sel = random_number_loop dr (Suc n) sel"
  by (subst random_number_loop.simps) simp

lemma random_number_loop_take:
  "int (dr n mod 125) \<noteq> sel \<Longrightarrow>
     random_number_loop dr n sel = Some (int (dr n mod 125), Suc n)"
  by (subst random_number_loop.simps) simp

lemma random_number_loop_returns:
  "int (dr (n + d) mod 125) \<noteq> sel \<Longrightarrow> \<exists>r n'. random_number_loop dr n sel = Some (r, n')"
proof (induction d arbitrary: n)
  case 0
  then show ?case by (simp add: random_number_loop_take)
next
  case (Suc d)
  show ?case
  proof (cases "int (dr n mod 125) = sel")
    case True
    from Suc.prems have "int (dr (Suc n + d) mod 125) \<noteq> sel" by simp
    from Suc.IH[OF this] show ?thesis
      using random_number_loop_skip[of dr n sel] True by simp
  next
    case False
    then show ?thesis by (simp add: random_number_loop_take)
  qed
qed

text \<open>
  C1. Every call of \<^verbatim>\<open>random_Highlight\<close> that returns leaves a selected index in
  \<open>[0, 125)\<close> that differs from the index selected before the call, and lowers the
  \<open>collider\<close> flag. The call returns as soon as the host supplies one draw whose remainder
  modulo 125 differs from the index selected before.
\<close>

theorem random_Highlight_valid_and_new:
  "(random_Highlight dr n s = Some (s', n') \<longrightarrow>
      0 \<le> selectedSphere s' \<and> selectedSphere s' < 125 \<and>
      selectedSphere s' \<noteq> selectedSphere s) \<and>
   ((\<exists>d. int (dr (n + d) mod 125) \<noteq> selectedSphere s) \<longrightarrow>
      (\<exists>t m. random_Highlight dr n s = Some (t, m) \<and>
         0 \<le> selectedSphere t \<and> selectedSphere t < 125 \<and>
         selectedSphere t \<noteq> selectedSphere s))"
proof (intro conjI impI)
  assume "random_Highlight dr n s = Some (s', n')"
  then obtain r where r: "random_number_loop dr n (selectedSphere s) = Some (r, n')"
    and s': "s' = s\<lparr>selectedSphere := r, collider := False\<rparr>"
    by (auto simp: random_Highlight_def split: option.splits)
  from random_number_loop_result[OF r] s'
  show "0 \<le> selectedSphere s'" "selectedSphere s' < 125"
    "selectedSphere s' \<noteq> selectedSphere s"
    by simp_all
next
  assume "\<exists>d. int (dr (n + d) mod 125) \<noteq> selectedSphere s"
  then obtain d where "int (dr (n + d) mod 125) \<noteq> selectedSphere s" ..
  from random_number_loop_returns[of dr n d "selectedSphere s", OF this]
  obtain r m where r: "random_number_loop dr n (selectedSphere s) = Some (r, m)" by blast
  from random_number_loop_result[OF r] r
  show "\<exists>t m. random_Highlight dr n s = Some (t, m) \<and>
         0 \<le> selectedSphere t \<and> selectedSphere t < 125 \<and>
         selectedSphere t \<noteq> selectedSphere s"
    by (simp add: random_Highlight_def)
qed

theorem random_Highlight_valid_and_new_witness:
  "random_Highlight (\<lambda>n. n + 7) 0
     \<lparr>GameState = True, selectedSphere = 7, collider = True, start = 0, duration = 0,
      score = 3\<rparr> =
   Some (\<lparr>GameState = True, selectedSphere = 8, collider = False, start = 0, duration = 0,
      score = 3\<rparr>, 2) \<and>
   (0::int) \<le> 8 \<and> (8::int) < 125 \<and> (8::int) \<noteq> 7"
  using random_Highlight_valid_and_new[of "\<lambda>n. n + 7" 0
      "\<lparr>GameState = True, selectedSphere = 7, collider = True, start = 0, duration = 0,
        score = 3\<rparr>"]
  by (simp add: random_Highlight_def random_number_loop_skip random_number_loop_take)

section \<open>Facts about the grid and the loop over the spheres\<close>

lemma upt_5: "[0..<5] = [0, 1, 2, 3, 4]"
  by (simp add: upt_rec)

lemma length_spheres_positions: "length (spheres_positions fl) = 125"
  by (simp add: spheres_positions_def GRID_SIZE_def length_concat comp_def upt_5)

lemma sphere_position_in_bounds:
  "0 \<le> i \<Longrightarrow> i < 125 \<Longrightarrow> sphere_position fl i = Some (spheres_positions fl ! nat i)"
  by (simp add: sphere_position_def length_spheres_positions)

lemma sphere_position_None: "sphere_position fl i = None \<longleftrightarrow> \<not> (0 \<le> i \<and> i < 125)"
  by (simp add: sphere_position_def length_spheres_positions)

lemma random_Highlight_Some:
  "random_Highlight dr n s = Some (s', n') \<Longrightarrow>
     \<exists>r. s' = s\<lparr>selectedSphere := r, collider := False\<rparr> \<and> 0 \<le> r \<and> r < 125 \<and>
         r \<noteq> selectedSphere s"
  by (auto simp: random_Highlight_def split: option.splits dest: random_number_loop_result)

lemma random_Highlight_fresh:
  "int (dr n mod 125) \<noteq> selectedSphere s \<Longrightarrow>
     random_Highlight dr n s =
       Some (s\<lparr>selectedSphere := int (dr n mod 125), collider := False\<rparr>, Suc n)"
  by (simp add: random_Highlight_def random_number_loop_take)

lemma spheres_pass:
  "\<not> (GameState s \<and> collider s) \<Longrightarrow> renderScene_spheres dr is (s, n, out) = Some (s, n, out)"
  by (induction "is") auto

lemma spheres_hit:
  assumes "GameState s" "collider s" "selectedSphere s = int i" "i \<in> set is"
    and "\<forall>j\<in>set is. j < 2 ^ 32"
  shows "renderScene_spheres dr is (s, n, out) =
     (case random_Highlight dr n s of
        None \<Rightarrow> None
      | Some (s', n') \<Rightarrow> Some (s'\<lparr>score := score s' + 1\<rparr>, n', out @ [Collide (score s' + 1)]))"
  using assms(4,5)
proof (induction "is")
  case Nil
  then show ?case by simp
next
  case (Cons j js)
  have i32: "int i mod 2 ^ 32 = int i"
    using Cons.prems by (auto simp: zmod_int[symmetric] simp del: zmod_int)
  show ?case
  proof (cases "j = i")
    case True
    show ?thesis
    proof (cases "random_Highlight dr n s")
      case None
      then show ?thesis using assms(1-3) True i32 by simp
    next
      case (Some a)
      obtain s' n' where a: "a = (s', n')" by (cases a)
      from random_Highlight_Some[OF Some[unfolded a]] have "\<not> collider s'" by auto
      then show ?thesis using assms(1-3) True i32 Some a by (simp add: spheres_pass)
    qed
  next
    case False
    then have "i \<in> set js" using Cons.prems by auto
    moreover have "\<forall>j\<in>set js. j < 2 ^ 32" using Cons.prems by auto
    ultimately have "renderScene_spheres dr js (s, n, out) =
       (case random_Highlight dr n s of
        None \<Rightarrow> None
      | Some (s', n') \<Rightarrow> Some (s'\<lparr>score := score s' + 1\<rparr>, n', out @ [Collide (score s' + 1)]))"
      by (rule Cons.IH)
    then show ?thesis using False assms(3) i32 by simp
  qed
qed

lemma spheres_hit_all:
  assumes "GameState s" "collider s" "0 \<le> selectedSphere s" "selectedSphere s < 125"
  shows "renderScene_spheres dr [0..<NUM_SPHERES] (s, n, out) =
     (case random_Highlight dr n s of
        None \<Rightarrow> None
      | Some (s', n') \<Rightarrow> Some (s'\<lparr>score := score s' + 1\<rparr>, n', out @ [Collide (score s' + 1)]))"
proof -
  have "selectedSphere s = int (nat (selectedSphere s))" using assms(3) by simp
  moreover have "nat (selectedSphere s) \<in> set [0..<NUM_SPHERES]"
    using assms(3,4) by (simp add: NUM_SPHERES_def)
  moreover have "\<forall>j\<in>set [0..<NUM_SPHERES]. j < 2 ^ 32"
    by (simp add: NUM_SPHERES_def)
  ultimately show ?thesis using assms(1,2) by (rule spheres_hit[rotated 2])
qed

section \<open>What one call of renderScene does\<close>

lemma active_block:
  assumes "GameState s" "0 \<le> selectedSphere s" "selectedSphere s < 125"
  shows "renderScene_active fl cps inp (renderScene_grab fl inp) s =
     (let s2 = s\<lparr>collider := (collider s \<or> collision fl inp s), duration := elapsed cps inp s\<rparr>
      in if 60 \<le> elapsed cps inp s
         then Some (s2\<lparr>GameState := False, start := 0, selectedSphere := -1, score := 0\<rparr>,
                    [GameOver (score s)])
         else Some (s2, []))"
  using assms
  by (auto simp: renderScene_active_def sphere_position_in_bounds Let_def collision_def
      target_distance_def trigger_touched_def elapsed_def split: option.splits)

lemma frame_tail:
  assumes "GameState s" "0 \<le> selectedSphere s" "selectedSphere s < 125" "\<not> collider s"
  shows "(case renderScene_active fl cps inp (renderScene_grab fl inp) s of
             None \<Rightarrow> OutOfBounds
           | Some (s2, out2) \<Rightarrow>
               (case renderScene_spheres dr [0..<NUM_SPHERES] (s2, n, out1 @ out2) of
                  None \<Rightarrow> Hang
                | Some (s3, n3, out3) \<Rightarrow> Done (s3, out3))) =
     (if 60 \<le> elapsed cps inp s
      then Done (s\<lparr>collider := collision fl inp s, duration := elapsed cps inp s,
                   GameState := False, start := 0, selectedSphere := -1, score := 0\<rparr>,
                 out1 @ [GameOver (score s)])
      else if collision fl inp s
      then (case random_Highlight dr n s of
              None \<Rightarrow> Hang
            | Some (s', n') \<Rightarrow>
                Done (s'\<lparr>duration := elapsed cps inp s, score := score s + 1\<rparr>,
                      out1 @ [Collide (score s + 1)]))
      else Done (s\<lparr>duration := elapsed cps inp s\<rparr>, out1))"
proof (cases "60 \<le> elapsed cps inp s")
  case True
  then show ?thesis using assms
    by (simp add: active_block Let_def spheres_pass)
next
  case late: False
  show ?thesis
  proof (cases "collision fl inp s")
    case False
    then show ?thesis using assms late
      by (simp add: active_block Let_def spheres_pass)
  next
    case True
    let ?s2 = "s\<lparr>collider := True, duration := elapsed cps inp s\<rparr>"
    have act: "renderScene_active fl cps inp (renderScene_grab fl inp) s = Some (?s2, [])"
      using assms late True by (simp add: active_block Let_def)
    have loop: "renderScene_spheres dr [0..<NUM_SPHERES] (?s2, n, out1) =
       (case random_Highlight dr n ?s2 of
          None \<Rightarrow> None
        | Some (s', n') \<Rightarrow> Some (s'\<lparr>score := score s' + 1\<rparr>, n', out1 @ [Collide (score s' + 1)]))"
      using assms by (intro spheres_hit_all) simp_all
    have rh: "random_Highlight dr n ?s2 =
       (case random_Highlight dr n s of None \<Rightarrow> None
        | Some (s', n') \<Rightarrow> Some (s'\<lparr>duration := elapsed cps inp s\<rparr>, n'))"
      using assms(4) by (auto simp: random_Highlight_def split: option.splits)
    show ?thesis using late True
      by (auto simp: act loop rh split: option.splits dest!: random_Highlight_Some)
  qed
qed

lemma start_block_active:
  "GameState s \<Longrightarrow> renderScene_start inp s = Some (s, 0, [])"
  by (simp add: renderScene_start_def split: option.splits)

lemma start_block_quiet:
  "\<not> trigger_touched (input_start inp) \<Longrightarrow> renderScene_start inp s = Some (s, 0, [])"
  by (cases "input_start inp") (simp_all add: renderScene_start_def trigger_touched_def)

lemma start_block_fires:
  assumes "\<not> GameState s" "trigger_touched (input_start inp)" "selectedSphere s = -1"
  shows "renderScene_start inp s =
     Some (s\<lparr>GameState := True, start := clock_start inp,
              selectedSphere := int (draws inp 0 mod 125), collider := False, score := 0\<rparr>,
           1, [GameStart])"
proof -
  have "int (draws inp 0 mod 125) \<noteq>
      selectedSphere (s\<lparr>GameState := True, start := clock_start inp\<rparr>)"
    using assms(3) by simp
  from random_Highlight_fresh[of "draws inp" 0
      "s\<lparr>GameState := True, start := clock_start inp\<rparr>", OF this]
    assms(1,2) show ?thesis
    by (auto simp: renderScene_start_def trigger_touched_def split: option.splits)
qed

lemma frame_active:
  assumes "GameState s" "0 \<le> selectedSphere s" "selectedSphere s < 125" "\<not> collider s"
  shows "renderScene fl cps inp s =
     (if 60 \<le> elapsed cps inp s
      then Done (s\<lparr>collider := collision fl inp s, duration := elapsed cps inp s,
                   GameState := False, start := 0, selectedSphere := -1, score := 0\<rparr>,
                 [GameOver (score s)])
      else if collision fl inp s
      then (case random_Highlight (draws inp) 0 s of
              None \<Rightarrow> Hang
            | Some (s', n') \<Rightarrow>
                Done (s'\<lparr>duration := elapsed cps inp s, score := score s + 1\<rparr>,
                      [Collide (score s + 1)]))
      else Done (s\<lparr>duration := elapsed cps inp s\<rparr>, []))"
proof -
  have "renderScene fl cps inp s =
     (case renderScene_active fl cps inp (renderScene_grab fl inp) s of
        None \<Rightarrow> OutOfBounds
      | Some (s2, out2) \<Rightarrow>
          (case renderScene_spheres (draws inp) [0..<NUM_SPHERES] (s2, 0, [] @ out2) of
             None \<Rightarrow> Hang
           | Some (s3, n3, out3) \<Rightarrow> Done (s3, out3)))"
    unfolding renderScene_def start_block_active[OF assms(1)] by simp
  also note frame_tail[OF assms]
  finally show ?thesis by (simp split: option.splits)
qed

lemma frame_idle_quiet:
  assumes "\<not> GameState s" "\<not> trigger_touched (input_start inp)"
  shows "renderScene fl cps inp s = Done (s, [])"
  using assms
  by (simp add: renderScene_def start_block_quiet renderScene_active_def spheres_pass)

lemma frame_idle_start:
  assumes "\<not> GameState s" "trigger_touched (input_start inp)" "selectedSphere s = -1"
  shows "renderScene fl cps inp s =
     (if 60 \<le> elapsed cps inp (started inp s)
      then Done ((started inp s)\<lparr>collider := collision fl inp (started inp s),
                   duration := elapsed cps inp (started inp s),
                   GameState := False, start := 0, selectedSphere := -1, score := 0\<rparr>,
                 [GameStart, GameOver 0])
      else if collision fl inp (started inp s)
      then (case random_Highlight (draws inp) 1 (started inp s) of
              None \<Rightarrow> Hang
            | Some (s', n') \<Rightarrow>
                Done (s'\<lparr>duration := elapsed cps inp (started inp s), score := 1\<rparr>,
                      [GameStart, Collide 1]))
      else Done ((started inp s)\<lparr>duration := elapsed cps inp (started inp s)\<rparr>, [GameStart]))"
proof -
  have st: "GameState (started inp s)" "0 \<le> selectedSphere (started inp s)"
    "selectedSphere (started inp s) < 125" "\<not> collider (started inp s)"
    by (simp_all add: started_def)
  have sc: "score (started inp s) = 0" by (simp add: started_def)
  show ?thesis
  proof -
    have "renderScene fl cps inp s =
       (case renderScene_active fl cps inp (renderScene_grab fl inp) (started inp s) of
          None \<Rightarrow> OutOfBounds
        | Some (s2, out2) \<Rightarrow>
            (case renderScene_spheres (draws inp) [0..<NUM_SPHERES]
                    (s2, 1, [GameStart] @ out2) of
               None \<Rightarrow> Hang
             | Some (s3, n3, out3) \<Rightarrow> Done (s3, out3)))"
      unfolding renderScene_def start_block_fires[OF assms, folded started_def]
      by (simp del: One_nat_def)
    also note frame_tail[OF st]
    finally show ?thesis by (simp add: sc split: option.splits)
  qed
qed

lemma frame_inv:
  assumes "game_inv s" "renderScene fl cps inp s = Done (s', out)"
  shows "game_inv s' \<and> rounds (GameState s) out = Some (GameState s')"
proof (cases "GameState s")
  case True
  with assms(1) have v: "0 \<le> selectedSphere s" "selectedSphere s < 125" "\<not> collider s"
    by (auto simp: game_inv_def)
  from assms(2) True v show ?thesis
    unfolding frame_active[OF True v]
    by (auto simp: game_inv_def split: if_splits option.splits dest!: random_Highlight_Some)
next
  case False
  with assms(1) have m: "selectedSphere s = -1" by (auto simp: game_inv_def)
  show ?thesis
  proof (cases "trigger_touched (input_start inp)")
    case quiet: False
    from assms show ?thesis
      unfolding frame_idle_quiet[OF False quiet] using False by simp
  next
    case True
    from assms(2) False show ?thesis
      unfolding frame_idle_start[OF False True m]
      by (auto simp: game_inv_def started_def split: if_splits option.splits
          dest!: random_Highlight_Some)
  qed
qed

lemma frame_in_bounds:
  assumes "game_inv s"
  shows "renderScene fl cps inp s \<noteq> OutOfBounds"
proof (cases "GameState s")
  case True
  with assms have v: "0 \<le> selectedSphere s" "selectedSphere s < 125" "\<not> collider s"
    by (auto simp: game_inv_def)
  show ?thesis
    unfolding frame_active[OF True v] by (simp split: option.splits)
next
  case False
  with assms have m: "selectedSphere s = -1" by (auto simp: game_inv_def)
  show ?thesis
  proof (cases "trigger_touched (input_start inp)")
    case quiet: False
    show ?thesis unfolding frame_idle_quiet[OF False quiet] by simp
  next
    case True
    show ?thesis unfolding frame_idle_start[OF False True m] by (simp split: option.splits)
  qed
qed

lemma failed_like_untouched:
  assumes "game_inv s" and "Touches q AND ovrTouch_RIndexTrigger = 0"
  shows "renderScene fl cps (inp\<lparr>input_start := None, input_hit := None\<rparr>) s =
         renderScene fl cps (inp\<lparr>input_start := Some q, input_hit := Some q\<rparr>) s"
proof -
  let ?a = "inp\<lparr>input_start := None, input_hit := None\<rparr>"
  let ?b = "inp\<lparr>input_start := Some q, input_hit := Some q\<rparr>"
  have el: "elapsed cps ?a s = elapsed cps ?b s" by (simp add: elapsed_def)
  have ca: "\<not> collision fl ?a s" by (simp add: collision_def trigger_touched_def)
  have cb: "\<not> collision fl ?b s" using assms(2) by (simp add: collision_def trigger_touched_def)
  have qa: "\<not> trigger_touched (input_start ?a)" by (simp add: trigger_touched_def)
  have qb: "\<not> trigger_touched (input_start ?b)"
    using assms(2) by (simp add: trigger_touched_def)
  show ?thesis
  proof (cases "GameState s")
    case True
    with assms(1) have v: "0 \<le> selectedSphere s" "selectedSphere s < 125" "\<not> collider s"
      by (auto simp: game_inv_def)
    show ?thesis
      unfolding frame_active[OF True v] using ca cb by (simp add: el)
  next
    case False
    show ?thesis
      unfolding frame_idle_quiet[OF False qa] frame_idle_quiet[OF False qb] ..
  qed
qed

lemma rounds_append:
  "rounds a (xs @ ys) = (case rounds a xs of None \<Rightarrow> None | Some b \<Rightarrow> rounds b ys)"
  by (induction a xs rule: rounds.induct) auto

lemma run_frames_inv:
  "game_inv s \<Longrightarrow> run_frames fl cps inps s = Done (s', out) \<Longrightarrow>
     game_inv s' \<and> rounds (GameState s) out = Some (GameState s')"
proof (induction inps arbitrary: s out)
  case Nil
  then show ?case by simp
next
  case (Cons inp inps)
  from Cons.prems(2) obtain s1 out1 out2 where
    f: "renderScene fl cps inp s = Done (s1, out1)" and
    r: "run_frames fl cps inps s1 = Done (s', out2)" and o: "out = out1 @ out2"
    by (auto split: outcome.splits)
  from frame_inv[OF Cons.prems(1) f] have i1: "game_inv s1"
    and t1: "rounds (GameState s) out1 = Some (GameState s1)" by simp_all
  from Cons.IH[OF i1 r] t1 o show ?case by (simp add: rounds_append)
qed

lemma run_frames_in_bounds:
  "game_inv s \<Longrightarrow> run_frames fl cps inps s \<noteq> OutOfBounds"
proof (induction inps arbitrary: s)
  case Nil
  then show ?case by simp
next
  case (Cons inp inps)
  show ?case
  proof (cases "renderScene fl cps inp s")
    case Hang
    then show ?thesis by simp
  next
    case OutOfBounds
    with frame_in_bounds[OF Cons.prems] show ?thesis by simp
  next
    case (Done a)
    obtain s1 out1 where a: "a = (s1, out1)" by (cases a)
    from frame_inv[OF Cons.prems Done[unfolded a]] have "game_inv s1" by simp
    from Cons.IH[OF this] show ?thesis using Done a by (simp split: outcome.splits)
  qed
qed

section \<open>Rounding to single precision\<close>

lemma float32_round_0: "float32_round 0 = 0"
  by (simp add: float32_round_def)

lemma floor_log_binade:
  fixes q :: real
  assumes "2 ^ 23 \<le> \<bar>q\<bar>" and "\<bar>q\<bar> < 2 ^ 24"
  shows "\<lfloor>log 2 \<bar>q\<bar>\<rfloor> = 23"
proof -
  have q0: "0 < \<bar>q\<bar>" using assms(1) by (rule less_le_trans[rotated]) simp
  have "2 powr real_of_int 23 \<le> \<bar>q\<bar>" using assms(1) by simp
  moreover have "\<bar>q\<bar> < 2 powr real_of_int (23 + 1)" using assms(2) by simp
  moreover have "(1::real) < 2" by simp
  ultimately show ?thesis using q0 floor_log_eq_powr_iff[of "\<bar>q\<bar>" 2 23] by blast
qed

lemma log_scaled:
  fixes q :: real and k :: nat
  assumes "0 < \<bar>q\<bar>"
  shows "log 2 \<bar>q / 2 ^ k\<bar> = log 2 \<bar>q\<bar> - real_of_int (int k)"
proof -
  have "\<bar>q / 2 ^ k\<bar> = \<bar>q\<bar> / 2 ^ k" by (simp add: abs_divide)
  moreover have "log 2 (\<bar>q\<bar> / 2 ^ k) = log 2 \<bar>q\<bar> - log 2 (2 ^ k)"
    using assms by (intro log_divide_pos) simp_all
  moreover have "log 2 ((2::real) ^ k) = real k" by (simp add: log_nat_power)
  ultimately show ?thesis by simp
qed

lemma powr_scaled: "2 powr (real_of_int (23 - int k) - 23) = 1 / (2::real) ^ k"
proof -
  have "real_of_int (23 - int k) - 23 = - real k" by simp
  then have "2 powr (real_of_int (23 - int k) - 23) = 2 powr (- real k)" by (simp only:)
  also have "\<dots> = inverse (2 powr real k)" by (rule powr_minus)
  also have "2 powr real k = (2::real) ^ k" by (rule powr_realpow) simp
  finally show ?thesis by (simp add: divide_inverse)
qed

lemma float32_round_binade:
  fixes q :: real and k :: nat
  assumes "2 ^ 23 \<le> \<bar>q\<bar>" and "\<bar>q\<bar> < 2 ^ 24" and "k \<le> 149"
  shows "float32_round (q / 2 ^ k) =
     (if q - real_of_int \<lfloor>q\<rfloor> < 1 / 2 \<or> (q - real_of_int \<lfloor>q\<rfloor> = 1 / 2 \<and> even \<lfloor>q\<rfloor>)
      then real_of_int \<lfloor>q\<rfloor> else real_of_int \<lfloor>q\<rfloor> + 1) / 2 ^ k"
proof -
  have q0: "0 < \<bar>q\<bar>" using assms(1) by (rule less_le_trans[rotated]) simp
  have "\<lfloor>log 2 \<bar>q / 2 ^ k\<bar>\<rfloor> = \<lfloor>log 2 \<bar>q\<bar>\<rfloor> - int k"
    unfolding log_scaled[OF q0] by (rule floor_diff_of_int)
  then have fl: "\<lfloor>log 2 \<bar>q / 2 ^ k\<bar>\<rfloor> = 23 - int k"
    by (simp only: floor_log_binade[OF assms(1,2)])
  have mx: "max (23 - int k) (- 126) = 23 - int k" using assms(3) by simp
  have x0: "q / 2 ^ k \<noteq> 0" using q0 by auto
  have d: "q / 2 ^ k / (1 / 2 ^ k) = q" by simp
  show ?thesis
    unfolding float32_round_def fl mx powr_scaled Let_def d using x0 by (simp only: if_False) simp
qed

lemma float32_round_fixed:
  fixes m :: int and k :: nat
  assumes "2 ^ 23 \<le> \<bar>m\<bar>" and "\<bar>m\<bar> < 2 ^ 24" and "k \<le> 149"
  shows "float32_round (real_of_int m / 2 ^ k) = real_of_int m / 2 ^ k"
proof -
  have "real_of_int (2 ^ 23) \<le> real_of_int \<bar>m\<bar>"
    using assms(1) by (rule of_int_le_iff[THEN iffD2])
  then have a: "2 ^ 23 \<le> \<bar>real_of_int m\<bar>" by simp
  have "real_of_int \<bar>m\<bar> < real_of_int (2 ^ 24)"
    using assms(2) by (rule of_int_less_iff[THEN iffD2])
  then have b: "\<bar>real_of_int m\<bar> < 2 ^ 24" by simp
  from float32_round_binade[OF a b assms(3)] show ?thesis by simp
qed

lemma float32_round_1: "float32_round 1 = 1"
  using float32_round_fixed[of 8388608 23] by simp

lemma float32_round_threshold: "float32_round float_0_055 = float_0_055"
  using float32_round_fixed[of 14763950 28] by (simp add: float_0_055_def)





lemma float32_round_sphere_step: "float32_round float_0_14 = float_0_14"
  using float32_round_fixed[of 9395241 26] by (simp add: float_0_14_def)

lemma float32_round_two_sphere_steps: "float32_round (float_0_14 * 2) = float_0_14 * 2"
  using float32_round_fixed[of 9395241 25] by (simp add: float_0_14_def)

section \<open>The concrete inputs evaluated\<close>

lemma transform_point_identity:
  assumes "fl 0 = 0" and "fl 1 = 1" and "fl x = x" and "fl y = y" and "fl z = z"
  shows "transform_point fl mat4_identity (x, y, z) = (x, y, z)"
  using assms
  by (simp add: transform_point_def mat4_mul_vec4_def mat4_identity_def vec4_add_def
      vec4_scale_def)

lemma center_distance_same: "fl 0 = 0 \<Longrightarrow> center_distance fl p p = 0"
  by (cases p) (simp add: center_distance_def)


lemma spheres_positions_0: "fl 0 = 0 \<Longrightarrow> spheres_positions fl ! 0 = (0, 0, 0)"
  by (simp add: spheres_positions_def GRID_SIZE_def upt_5)

lemma spheres_positions_7:
  "spheres_positions float32_round ! 7 = (float_0_14 * 2, float_0_14, 0)"
  by (simp add: spheres_positions_def GRID_SIZE_def upt_5 float32_round_0
      float32_round_sphere_step float32_round_two_sphere_steps)

lemma example_grab_None:
  "renderScene_grab fl (example_frame hand None now) = mat4_identity"
  by (simp add: renderScene_grab_def example_frame_def)

lemma example_grab_touching:
  "renderScene_grab fl (example_frame hand (Some touching) now) = mat4_identity"
  by (simp add: renderScene_grab_def example_frame_def touching_def ovrButton_X_def)

lemma example_distance_None:
  "target_distance float32_round (example_frame hand None now) example_active =
     center_distance float32_round (0, 0, 0) hand"
  by (simp add: target_distance_def example_grab_None example_active_def
      spheres_positions_0 transform_point_identity float32_round_0 float32_round_1)
     (simp add: example_frame_def)

lemma example_distance_touching:
  "target_distance float32_round (example_frame hand (Some touching) now) example_active =
     center_distance float32_round (0, 0, 0) hand"
  by (simp add: target_distance_def example_grab_touching example_active_def
      spheres_positions_0 transform_point_identity float32_round_0 float32_round_1)
     (simp add: example_frame_def)

lemma float_0_055_positive: "0 < float_0_055"
  by (simp add: float_0_055_def)

lemma example_active_inv: "game_inv example_active"
  by (simp add: game_inv_def example_active_def)

lemma trigger_touched_touching: "trigger_touched (Some touching)"
  by (simp add: trigger_touched_def touching_def ovrTouch_RIndexTrigger_def)

lemma trigger_touched_None: "\<not> trigger_touched None"
  by (simp add: trigger_touched_def)

lemma example_elapsed:
  "elapsed cps (example_frame hand q now) example_active = real_of_int now / real_of_int cps"
  by (simp add: elapsed_def example_frame_def example_active_def)

lemma example_collision_touching:
  "collision float32_round (example_frame (0, 0, 0) (Some touching) now) example_active"
  by (simp add: collision_def example_distance_touching center_distance_same
      float32_round_0 float_0_055_positive)
     (simp add: example_frame_def trigger_touched_touching)

lemma example_collision_None:
  "\<not> collision fl (example_frame hand None now) s"
  by (simp add: collision_def example_frame_def trigger_touched_None)

lemma example_idle_inv: "game_inv (ExampleApp_init c t d)"
  by (simp add: game_inv_def ExampleApp_init_def)

lemma example_active_valid:
  "GameState example_active" "0 \<le> selectedSphere example_active"
  "selectedSphere example_active < 125" "\<not> collider example_active"
  by (simp_all add: example_active_def)

lemma example_timeout_quiet:
  "renderScene float32_round 1000 (example_frame (1, 1, 1) None 60000) example_active =
     Done (\<lparr>GameState = False, selectedSphere = -1, collider = False, start = 0,
            duration = 60, score = 0\<rparr>, [GameOver 5])"
  by (simp add: frame_active[OF example_active_valid] example_elapsed example_collision_None)
     (simp add: example_active_def)

lemma example_first_call:
  "renderScene float32_round 1000
     ((example_frame (1, 1, 1) (Some touching) 500)\<lparr>input_hit := None\<rparr>)
     (ExampleApp_init True 3 0) =
     Done (example_round, [GameStart])"
proof -
  let ?inp = "(example_frame (1, 1, 1) (Some touching) 500)\<lparr>input_hit := None\<rparr>"
  let ?s = "ExampleApp_init True 3 0"
  have i: "\<not> GameState ?s" "selectedSphere ?s = -1" by (simp_all add: ExampleApp_init_def)
  have t: "trigger_touched (input_start ?inp)"
    by (simp add: example_frame_def trigger_touched_touching)
  have st: "started ?inp ?s = example_round"
    by (simp add: started_def example_frame_def ExampleApp_init_def example_round_def)
  have el: "elapsed 1000 ?inp example_round = 0"
    by (simp add: elapsed_def example_frame_def example_round_def)
  have nc: "\<not> collision float32_round ?inp example_round"
    by (simp add: collision_def trigger_touched_None)
  have d: "example_round\<lparr>duration := 0\<rparr> = example_round" by (simp add: example_round_def)
  show ?thesis
    unfolding frame_idle_start[OF i(1) t i(2)] st using nc by (simp add: el d)
qed

lemma example_second_call:
  "renderScene float32_round 1000 (example_frame (1, 1, 1) None 700) example_round =
     Done (example_round\<lparr>duration := 1 / 5\<rparr>, [])"
proof -
  let ?inp = "example_frame (1, 1, 1) None 700"
  have v: "GameState example_round" "0 \<le> selectedSphere example_round"
    "selectedSphere example_round < 125" "\<not> collider example_round"
    by (simp_all add: example_round_def)
  have el: "elapsed 1000 ?inp example_round = 1 / 5"
    by (simp add: elapsed_def example_frame_def example_round_def)
  have nc: "\<not> collision float32_round ?inp example_round"
    by (rule example_collision_None)
  show ?thesis unfolding frame_active[OF v] using nc by (simp add: el)
qed

section \<open>The end of a round\<close>

text \<open>
  C2. In a call that \<^verbatim>\<open>renderScene\<close> enters with a round running, the round ends if and
  only if \<^verbatim>\<open>duration\<close>, the ticks of the clock since \<open>start\<close> over
  \<^verbatim>\<open>CLOCKS_PER_SEC\<close>, is at least 60, that is when at least \<open>60 * CLOCKS_PER_SEC\<close>
  ticks have passed. Ending the round lowers \<open>GameState\<close>, prints the final score, sets
  \<open>selectedSphere\<close> to \<open>-1\<close> and \<open>score\<close> and \<open>start\<close> to 0. In every sequence of
  calls the messages follow the order of \<open>rounds\<close>: after the end of a round no second
  end is printed before a new round has started.
\<close>

theorem timeout_iff_sixty_seconds:
  assumes "game_inv s" and "GameState s"
  shows "(60 \<le> elapsed cps inp s \<longrightarrow>
            renderScene fl cps inp s =
              Done (s\<lparr>collider := collision fl inp s, duration := elapsed cps inp s,
                      GameState := False, start := 0, selectedSphere := -1, score := 0\<rparr>,
                    [GameOver (score s)])) \<and>
         (\<forall>s' out. renderScene fl cps inp s = Done (s', out) \<longrightarrow>
            ((\<exists>k. GameOver k \<in> set out) \<longleftrightarrow> 60 \<le> elapsed cps inp s) \<and>
            (GameState s' \<longleftrightarrow> \<not> 60 \<le> elapsed cps inp s)) \<and>
         (0 < cps \<longrightarrow> (60 \<le> elapsed cps inp s \<longleftrightarrow> 60 * cps \<le> clock_now inp - start s)) \<and>
         (\<forall>inps s' out. run_frames fl cps inps s = Done (s', out) \<longrightarrow>
            rounds True out = Some (GameState s'))"
proof -
  from assms have v: "0 \<le> selectedSphere s" "selectedSphere s < 125" "\<not> collider s"
    by (auto simp: game_inv_def)
  note fa = frame_active[OF assms(2) v]
  have a: "60 \<le> elapsed cps inp s \<longrightarrow>
            renderScene fl cps inp s =
              Done (s\<lparr>collider := collision fl inp s, duration := elapsed cps inp s,
                      GameState := False, start := 0, selectedSphere := -1, score := 0\<rparr>,
                    [GameOver (score s)])"
    by (simp add: fa)
  have b: "\<forall>s' out. renderScene fl cps inp s = Done (s', out) \<longrightarrow>
            ((\<exists>k. GameOver k \<in> set out) \<longleftrightarrow> 60 \<le> elapsed cps inp s) \<and>
            (GameState s' \<longleftrightarrow> \<not> 60 \<le> elapsed cps inp s)"
    using assms(2) unfolding fa
    by (auto split: if_splits option.splits dest!: random_Highlight_Some)
  have c: "0 < cps \<longrightarrow> (60 \<le> elapsed cps inp s \<longleftrightarrow> 60 * cps \<le> clock_now inp - start s)"
  proof
    assume "0 < cps"
    then have "0 < real_of_int cps" by simp
    then have "(60 \<le> real_of_int (clock_now inp - start s) / real_of_int cps) \<longleftrightarrow>
        (60 * real_of_int cps \<le> real_of_int (clock_now inp - start s))"
      by (simp add: pos_le_divide_eq)
    also have "\<dots> \<longleftrightarrow> real_of_int (60 * cps) \<le> real_of_int (clock_now inp - start s)"
      by simp
    also have "\<dots> \<longleftrightarrow> 60 * cps \<le> clock_now inp - start s"
      by (rule of_int_le_iff)
    finally show "60 \<le> elapsed cps inp s \<longleftrightarrow> 60 * cps \<le> clock_now inp - start s"
      by (simp add: elapsed_def)
  qed
  have d: "\<forall>inps s' out. run_frames fl cps inps s = Done (s', out) \<longrightarrow>
            rounds True out = Some (GameState s')"
    using run_frames_inv[OF assms(1)] assms(2) by auto
  from a b c d show ?thesis by blast
qed

theorem timeout_iff_sixty_seconds_witness:
  "game_inv example_active \<and> GameState example_active \<and>
   60 \<le> elapsed 1000 (example_frame (1, 1, 1) None 60000) example_active \<and>
   renderScene float32_round 1000 (example_frame (1, 1, 1) None 60000) example_active =
     Done (\<lparr>GameState = False, selectedSphere = -1, collider = False, start = 0,
            duration = 60, score = 0\<rparr>, [GameOver 5]) \<and>
   rounds True [GameOver 5] = Some False"
  using timeout_iff_sixty_seconds[OF example_active_inv, of 1000
      "example_frame (1, 1, 1) None 60000"]
  by (simp add: example_active_inv example_elapsed example_collision_None)
     (simp add: example_active_def)

section \<open>The start of a round\<close>

lemma started_valid:
  "GameState (started inp s)" "0 \<le> selectedSphere (started inp s)"
  "selectedSphere (started inp s) < 125" "\<not> collider (started inp s)"
  "score (started inp s) = 0" "start (started inp s) = clock_start inp"
  by (simp_all add: started_def)

lemma example_start_on_target:
  "renderScene float32_round 1000
     (example_frame (float_0_14 * 2, float_0_14, 0) (Some touching) 500)
     (ExampleApp_init True 3 0) =
   Done (\<lparr>GameState = True, selectedSphere = 8, collider = False, start = 500,
          duration = 0, score = 1\<rparr>, [GameStart, Collide 1])"
proof -
  let ?inp = "example_frame (float_0_14 * 2, float_0_14, 0) (Some touching) 500"
  let ?s = "ExampleApp_init True 3 0"
  have i: "\<not> GameState ?s" "selectedSphere ?s = -1" by (simp_all add: ExampleApp_init_def)
  have t: "trigger_touched (input_start ?inp)" "trigger_touched (input_hit ?inp)"
    by (simp_all add: example_frame_def trigger_touched_touching)
  have st: "started ?inp ?s = example_round"
    by (simp add: started_def example_frame_def ExampleApp_init_def example_round_def)
  have el: "elapsed 1000 ?inp example_round = 0"
    by (simp add: elapsed_def example_frame_def example_round_def)
  have h: "handPosition_Right ?inp = (float_0_14 * 2, float_0_14, 0)"
    by (simp add: example_frame_def)
  have p: "spheres_positions float32_round ! nat (selectedSphere example_round) =
      (float_0_14 * 2, float_0_14, 0)"
    by (simp add: example_round_def spheres_positions_7)
  have "target_distance float32_round ?inp example_round = 0"
    unfolding target_distance_def example_grab_touching p h
    by (simp add: transform_point_identity center_distance_same float32_round_0
        float32_round_1 float32_round_sphere_step float32_round_two_sphere_steps)
  then have c: "collision float32_round ?inp example_round"
    using t(2) by (simp add: collision_def float_0_055_positive)
  have r: "random_Highlight (draws ?inp) 1 example_round =
      Some (example_round\<lparr>selectedSphere := 8, collider := False\<rparr>, 2)"
    by (simp add: random_Highlight_def random_number_loop_take example_frame_def
        example_round_def)
  have fa: "renderScene float32_round 1000 ?inp ?s =
      (case random_Highlight (draws ?inp) 1 example_round of
         None \<Rightarrow> Hang
       | Some (s', n') \<Rightarrow>
           Done (s'\<lparr>duration := elapsed 1000 ?inp example_round, score := 1\<rparr>,
                 [GameStart, Collide 1]))"
    unfolding frame_idle_start[OF i(1) t(1) i(2)] st using c by (simp add: el)
  show ?thesis
    unfolding fa r by (simp add: el) (simp add: example_round_def)
qed

text \<open>
  C3, as amended. When no round runs and the query of line 841 reports the right index
  trigger touched, the call starts a round: \<open>GameState\<close> is raised, \<open>start\<close> takes the
  clock, \<open>score\<close> becomes 0, \<^verbatim>\<open>random_Highlight\<close> selects the first draw modulo 125 (no
  target was selected before, so the first draw is taken) and lowers \<open>collider\<close>, and the
  start message is printed; \<open>started\<close> is the state this leaves. The source tests the level
  of the trigger, which holds in particular when the trigger has just become touched.
  The rest of the same call treats the round as running, so what the whole call does
  depends on the hand and the clock. When the hand is not within the threshold of the new
  target with the trigger reported touched at line 870, and fewer than 60 seconds lie
  between the two readings of the clock, the call leaves exactly the started state, with
  \<open>duration\<close> written. When the hand is within the threshold, the same call also registers
  that hit: the score leaves the call at 1 and a second target is selected. When 60
  seconds have passed the same call ends the round again.
\<close>

theorem idle_trigger_starts_round:
  assumes "game_inv s" and "\<not> GameState s" and "trigger_touched (input_start inp)"
  shows "started inp s =
           s\<lparr>GameState := True, start := clock_start inp,
             selectedSphere := int (draws inp 0 mod 125), collider := False, score := 0\<rparr> \<and>
         0 \<le> selectedSphere (started inp s) \<and> selectedSphere (started inp s) < 125 \<and>
         renderScene_start inp s = Some (started inp s, 1, [GameStart]) \<and>
         (\<not> 60 \<le> elapsed cps inp (started inp s) \<and> \<not> collision fl inp (started inp s) \<longrightarrow>
            renderScene fl cps inp s =
              Done ((started inp s)\<lparr>duration := elapsed cps inp (started inp s)\<rparr>,
                    [GameStart])) \<and>
         (\<not> 60 \<le> elapsed cps inp (started inp s) \<and> collision fl inp (started inp s) \<longrightarrow>
            (renderScene fl cps inp s = Hang \<or>
             (\<exists>r. 0 \<le> r \<and> r < 125 \<and> r \<noteq> selectedSphere (started inp s) \<and>
                renderScene fl cps inp s =
                  Done ((started inp s)\<lparr>selectedSphere := r, collider := False,
                          duration := elapsed cps inp (started inp s), score := 1\<rparr>,
                        [GameStart, Collide 1]))) \<and>
            ((\<exists>d. int (draws inp (1 + d) mod 125) \<noteq> selectedSphere (started inp s)) \<longrightarrow>
               renderScene fl cps inp s \<noteq> Hang)) \<and>
         (60 \<le> elapsed cps inp (started inp s) \<longrightarrow>
            renderScene fl cps inp s =
              Done ((started inp s)\<lparr>collider := collision fl inp (started inp s),
                      duration := elapsed cps inp (started inp s), GameState := False,
                      start := 0, selectedSphere := -1, score := 0\<rparr>,
                    [GameStart, GameOver 0]))"
proof -
  from assms(1,2) have m: "selectedSphere s = -1" by (auto simp: game_inv_def)
  note fr = frame_idle_start[OF assms(2,3) m, of fl cps]
  let ?t = "started inp s"
  have a: "?t = s\<lparr>GameState := True, start := clock_start inp,
             selectedSphere := int (draws inp 0 mod 125), collider := False, score := 0\<rparr>"
    by (simp add: started_def)
  have b: "renderScene_start inp s = Some (?t, 1, [GameStart])"
    unfolding started_def by (rule start_block_fires[OF assms(2,3) m])
  have c: "\<not> 60 \<le> elapsed cps inp ?t \<and> \<not> collision fl inp ?t \<longrightarrow>
            renderScene fl cps inp s = Done (?t\<lparr>duration := elapsed cps inp ?t\<rparr>, [GameStart])"
    by (simp add: fr)
  have e: "60 \<le> elapsed cps inp ?t \<longrightarrow>
            renderScene fl cps inp s =
              Done (?t\<lparr>collider := collision fl inp ?t, duration := elapsed cps inp ?t,
                      GameState := False, start := 0, selectedSphere := -1, score := 0\<rparr>,
                    [GameStart, GameOver 0])"
    by (simp add: fr)
  have d: "(renderScene fl cps inp s = Hang \<or>
             (\<exists>r. 0 \<le> r \<and> r < 125 \<and> r \<noteq> selectedSphere ?t \<and>
                renderScene fl cps inp s =
                  Done (?t\<lparr>selectedSphere := r, collider := False,
                          duration := elapsed cps inp ?t, score := 1\<rparr>,
                        [GameStart, Collide 1]))) \<and>
            ((\<exists>d. int (draws inp (1 + d) mod 125) \<noteq> selectedSphere ?t) \<longrightarrow>
               renderScene fl cps inp s \<noteq> Hang)"
    if h: "\<not> 60 \<le> elapsed cps inp ?t \<and> collision fl inp ?t"
  proof -
    have fa: "renderScene fl cps inp s =
        (case random_Highlight (draws inp) 1 ?t of
           None \<Rightarrow> Hang
         | Some (s', n') \<Rightarrow>
             Done (s'\<lparr>duration := elapsed cps inp ?t, score := 1\<rparr>, [GameStart, Collide 1]))"
      using h by (simp add: fr)
    have one: "renderScene fl cps inp s = Hang \<or>
             (\<exists>r. 0 \<le> r \<and> r < 125 \<and> r \<noteq> selectedSphere ?t \<and>
                renderScene fl cps inp s =
                  Done (?t\<lparr>selectedSphere := r, collider := False,
                          duration := elapsed cps inp ?t, score := 1\<rparr>,
                        [GameStart, Collide 1]))"
    proof (cases "random_Highlight (draws inp) 1 ?t")
      case None
      then show ?thesis by (simp add: fa)
    next
      case (Some x)
      obtain s' n' where x: "x = (s', n')" by (cases x)
      from random_Highlight_Some[OF Some[unfolded x]] obtain r where
        "s' = ?t\<lparr>selectedSphere := r, collider := False\<rparr>" "0 \<le> r" "r < 125"
        "r \<noteq> selectedSphere ?t" by blast
      then show ?thesis using Some x by (auto simp: fa)
    qed
    have two: "(\<exists>d. int (draws inp (1 + d) mod 125) \<noteq> selectedSphere ?t) \<longrightarrow>
               renderScene fl cps inp s \<noteq> Hang"
    proof
      assume "\<exists>d. int (draws inp (1 + d) mod 125) \<noteq> selectedSphere ?t"
      then obtain d where "int (draws inp (1 + d) mod 125) \<noteq> selectedSphere ?t" ..
      from random_number_loop_returns[of "draws inp" 1 d "selectedSphere ?t", OF this]
      show "renderScene fl cps inp s \<noteq> Hang"
        by (auto simp: fa random_Highlight_def)
    qed
    from one two show ?thesis ..
  qed
  from a b c d e started_valid(2,3)[of inp s] show ?thesis by blast
qed

theorem idle_trigger_starts_round_witness:
  "game_inv (ExampleApp_init True 3 0) \<and> \<not> GameState (ExampleApp_init True 3 0) \<and>
   trigger_touched
     (input_start ((example_frame (1, 1, 1) (Some touching) 500)\<lparr>input_hit := None\<rparr>)) \<and>
   renderScene float32_round 1000
     ((example_frame (1, 1, 1) (Some touching) 500)\<lparr>input_hit := None\<rparr>)
     (ExampleApp_init True 3 0) =
     Done (\<lparr>GameState = True, selectedSphere = 7, collider = False, start = 500,
            duration = 0, score = 0\<rparr>, [GameStart])"
proof -
  let ?inp = "(example_frame (1, 1, 1) (Some touching) 500)\<lparr>input_hit := None\<rparr>"
  have g: "\<not> GameState (ExampleApp_init True 3 0)" by (simp add: ExampleApp_init_def)
  have t: "trigger_touched (input_start ?inp)"
    by (simp add: example_frame_def trigger_touched_touching)
  have st: "started ?inp (ExampleApp_init True 3 0) = example_round"
    by (simp add: started_def example_frame_def ExampleApp_init_def example_round_def)
  have el: "\<not> 60 \<le> elapsed 1000 ?inp example_round"
    by (simp add: elapsed_def example_frame_def example_round_def)
  have nc: "\<not> collision float32_round ?inp example_round"
    by (simp add: collision_def trigger_touched_None)
  have v: "elapsed 1000 ?inp example_round = 0"
    by (simp add: elapsed_def example_frame_def example_round_def)
  note th = idle_trigger_starts_round[OF example_idle_inv g t, of 1000 float32_round,
      unfolded st, THEN conjunct2, THEN conjunct2, THEN conjunct2, THEN conjunct2,
      THEN conjunct1, rule_format, OF conjI[OF el nc]]
  have "renderScene float32_round 1000 ?inp (ExampleApp_init True 3 0) =
     Done (\<lparr>GameState = True, selectedSphere = 7, collider = False, start = 500,
            duration = 0, score = 0\<rparr>, [GameStart])"
    unfolding th v by (simp add: example_round_def)
  with g t example_idle_inv show ?thesis by blast
qed

theorem start_with_hit_counterexample:
  "\<not> GameState (ExampleApp_init True 3 0) \<and>
   trigger_touched
     (input_start (example_frame (float_0_14 * 2, float_0_14, 0) (Some touching) 500)) \<and>
   renderScene float32_round 1000
     (example_frame (float_0_14 * 2, float_0_14, 0) (Some touching) 500)
     (ExampleApp_init True 3 0) =
   Done (\<lparr>GameState = True, selectedSphere = 8, collider = False, start = 500,
          duration = 0, score = 1\<rparr>, [GameStart, Collide 1])"
  using example_start_on_target
  by (simp add: ExampleApp_init_def) (simp add: example_frame_def trigger_touched_touching)

section \<open>A hit\<close>

text \<open>
  C4, as amended. In a call entered with a round running, in which the distance between
  the selected sphere (under the grab transform) and the right hand is below the
  threshold that \<^verbatim>\<open>0.055f\<close> denotes, the
  query of line 870 reports the trigger touched, and \<^verbatim>\<open>duration\<close> stays below 60, the
  hit is processed: if the call returns, \<open>score\<close> has grown by one, a new sphere that
  differs from the old one is selected, \<open>collider\<close> is lowered again, the round still
  runs, and the only other write is \<open>duration\<close>. The call returns as soon as one draw
  modulo 125 differs from the old selection. Without the bound on \<^verbatim>\<open>duration\<close> the
  statement is false: the round ends instead, as the evaluation at 60 seconds shows.
\<close>

theorem hit_without_timeout:
  assumes "game_inv s" and "GameState s" and "collision fl inp s"
    and "\<not> 60 \<le> elapsed cps inp s"
  shows "(renderScene fl cps inp s = Hang \<or>
          (\<exists>r. 0 \<le> r \<and> r < 125 \<and> r \<noteq> selectedSphere s \<and>
             renderScene fl cps inp s =
               Done (s\<lparr>selectedSphere := r, collider := False,
                       duration := elapsed cps inp s, score := score s + 1\<rparr>,
                     [Collide (score s + 1)]))) \<and>
         ((\<exists>d. int (draws inp d mod 125) \<noteq> selectedSphere s) \<longrightarrow>
            renderScene fl cps inp s \<noteq> Hang)"
proof -
  from assms have v: "0 \<le> selectedSphere s" "selectedSphere s < 125" "\<not> collider s"
    by (auto simp: game_inv_def)
  have fa: "renderScene fl cps inp s =
      (case random_Highlight (draws inp) 0 s of
         None \<Rightarrow> Hang
       | Some (s', n') \<Rightarrow>
           Done (s'\<lparr>duration := elapsed cps inp s, score := score s + 1\<rparr>,
                 [Collide (score s + 1)]))"
    using assms(3,4) by (simp add: frame_active[OF assms(2) v])
  have a: "renderScene fl cps inp s = Hang \<or>
          (\<exists>r. 0 \<le> r \<and> r < 125 \<and> r \<noteq> selectedSphere s \<and>
             renderScene fl cps inp s =
               Done (s\<lparr>selectedSphere := r, collider := False,
                       duration := elapsed cps inp s, score := score s + 1\<rparr>,
                     [Collide (score s + 1)]))"
  proof (cases "random_Highlight (draws inp) 0 s")
    case None
    then show ?thesis by (simp add: fa)
  next
    case (Some a)
    obtain s' n' where a: "a = (s', n')" by (cases a)
    from random_Highlight_Some[OF Some[unfolded a]] obtain r where
      "s' = s\<lparr>selectedSphere := r, collider := False\<rparr>" "0 \<le> r" "r < 125"
      "r \<noteq> selectedSphere s" by blast
    then show ?thesis using Some a by (auto simp: fa)
  qed
  have b: "(\<exists>d. int (draws inp d mod 125) \<noteq> selectedSphere s) \<longrightarrow>
            renderScene fl cps inp s \<noteq> Hang"
  proof
    assume "\<exists>d. int (draws inp d mod 125) \<noteq> selectedSphere s"
    then obtain d where "int (draws inp (0 + d) mod 125) \<noteq> selectedSphere s" by auto
    from random_number_loop_returns[of "draws inp" 0 d "selectedSphere s", OF this]
    show "renderScene fl cps inp s \<noteq> Hang"
      by (auto simp: fa random_Highlight_def)
  qed
  from a b show ?thesis ..
qed

theorem hit_without_timeout_witness:
  "game_inv example_active \<and> GameState example_active \<and>
   collision float32_round (example_frame (0, 0, 0) (Some touching) 30000) example_active \<and>
   \<not> 60 \<le> elapsed 1000 (example_frame (0, 0, 0) (Some touching) 30000) example_active \<and>
   renderScene float32_round 1000 (example_frame (0, 0, 0) (Some touching) 30000) example_active =
     Done (\<lparr>GameState = True, selectedSphere = 7, collider = False, start = 0,
            duration = 30, score = 6\<rparr>, [Collide 6])"
proof -
  let ?inp = "example_frame (0, 0, 0) (Some touching) 30000"
  have g: "GameState example_active" by (simp add: example_active_def)
  have e: "\<not> 60 \<le> elapsed 1000 ?inp example_active" by (simp add: example_elapsed)
  have d: "\<exists>d. int (draws ?inp d mod 125) \<noteq> selectedSphere example_active"
    by (rule exI[of _ 0]) (simp add: example_frame_def example_active_def)
  have r: "random_Highlight (draws ?inp) 0 example_active =
      Some (example_active\<lparr>selectedSphere := 7, collider := False\<rparr>, 1)"
    by (simp add: random_Highlight_def random_number_loop_take example_frame_def
        example_active_def)
  have v: "0 \<le> selectedSphere example_active" "selectedSphere example_active < 125"
    "\<not> collider example_active"
    by (simp_all add: example_active_def)
  have f: "renderScene float32_round 1000 ?inp example_active =
     Done (\<lparr>GameState = True, selectedSphere = 7, collider = False, start = 0,
            duration = 30, score = 6\<rparr>, [Collide 6])"
    using e by (simp add: frame_active[OF g v] example_collision_touching r example_elapsed)
      (simp add: example_active_def)
  from hit_without_timeout[OF example_active_inv g example_collision_touching e] f g e
  show ?thesis by (simp add: example_active_inv example_collision_touching)
qed

theorem hit_at_timeout_counterexample:
  "GameState example_active \<and> score example_active = 5 \<and>
   target_distance float32_round (example_frame (0, 0, 0) (Some touching) 60000)
     example_active < float_0_055 \<and>
   trigger_touched (input_hit (example_frame (0, 0, 0) (Some touching) 60000)) \<and>
   renderScene float32_round 1000 (example_frame (0, 0, 0) (Some touching) 60000) example_active =
     Done (\<lparr>GameState = False, selectedSphere = -1, collider = True, start = 0,
            duration = 60, score = 0\<rparr>, [GameOver 5])"
proof -
  let ?inp = "example_frame (0, 0, 0) (Some touching) 60000"
  have g: "GameState example_active" by (simp add: example_active_def)
  have v: "0 \<le> selectedSphere example_active" "selectedSphere example_active < 125"
    "\<not> collider example_active"
    by (simp_all add: example_active_def)
  have f: "renderScene float32_round 1000 ?inp example_active =
     Done (\<lparr>GameState = False, selectedSphere = -1, collider = True, start = 0,
            duration = 60, score = 0\<rparr>, [GameOver 5])"
    by (simp add: frame_active[OF g v] example_collision_touching example_elapsed)
      (simp add: example_active_def)
  have d: "target_distance float32_round ?inp example_active < float_0_055"
    by (simp add: example_distance_touching center_distance_same float32_round_0
        float_0_055_positive)
  have t: "trigger_touched (input_hit ?inp)"
    by (simp add: example_frame_def trigger_touched_touching)
  from g f d t show ?thesis by (simp add: example_active_def)
qed

section \<open>The proximity test\<close>



section \<open>The end of a round goes before a hit\<close>

text \<open>
  C7. In a call entered with a round running in which \<^verbatim>\<open>duration\<close> reaches 60, the
  round ends whatever the hand and the trigger do: \<open>GameState\<close> is lowered, \<open>score\<close> is
  0 and \<open>selectedSphere\<close> is \<open>-1\<close> afterwards, the score printed is the score before
  the call, no hit is printed and no new sphere is selected. A collision detected in the
  same call only leaves \<open>collider\<close> raised, which the next start of a round lowers.
\<close>

theorem timeout_before_hit:
  assumes "game_inv s" and "GameState s" and "60 \<le> elapsed cps inp s"
  shows "renderScene fl cps inp s =
           Done (s\<lparr>collider := collision fl inp s, duration := elapsed cps inp s,
                   GameState := False, start := 0, selectedSphere := -1, score := 0\<rparr>,
                 [GameOver (score s)]) \<and>
         (\<forall>s' out. renderScene fl cps inp s = Done (s', out) \<longrightarrow>
            \<not> GameState s' \<and> score s' = 0 \<and> selectedSphere s' = -1 \<and>
            (\<forall>k. Collide k \<notin> set out) \<and> GameOver (score s + 1) \<notin> set out)"
proof -
  from assms have v: "0 \<le> selectedSphere s" "selectedSphere s < 125" "\<not> collider s"
    by (auto simp: game_inv_def)
  have eq: "renderScene fl cps inp s =
           Done (s\<lparr>collider := collision fl inp s, duration := elapsed cps inp s,
                   GameState := False, start := 0, selectedSphere := -1, score := 0\<rparr>,
                 [GameOver (score s)])"
    using assms(3) by (simp add: frame_active[OF assms(2) v])
  have "\<not> GameState s' \<and> score s' = 0 \<and> selectedSphere s' = -1 \<and>
            (\<forall>k. Collide k \<notin> set out) \<and> GameOver (score s + 1) \<notin> set out"
    if "renderScene fl cps inp s = Done (s', out)" for s' out
  proof -
    from that eq have "s' = s\<lparr>collider := collision fl inp s, duration := elapsed cps inp s,
                   GameState := False, start := 0, selectedSphere := -1, score := 0\<rparr>"
      and "out = [GameOver (score s)]" by simp_all
    then show ?thesis by simp
  qed
  with eq show ?thesis by blast
qed

theorem timeout_before_hit_witness:
  "game_inv example_active \<and> GameState example_active \<and>
   60 \<le> elapsed 1000 (example_frame (0, 0, 0) (Some touching) 61000) example_active \<and>
   collision float32_round (example_frame (0, 0, 0) (Some touching) 61000) example_active \<and>
   renderScene float32_round 1000 (example_frame (0, 0, 0) (Some touching) 61000) example_active =
     Done (\<lparr>GameState = False, selectedSphere = -1, collider = True, start = 0,
            duration = 61, score = 0\<rparr>, [GameOver 5])"
proof -
  let ?inp = "example_frame (0, 0, 0) (Some touching) 61000"
  have e: "60 \<le> elapsed 1000 ?inp example_active" by (simp add: example_elapsed)
  have g: "GameState example_active" by (simp add: example_active_def)
  have r: "example_active\<lparr>collider := True, duration := 61,
                   GameState := False, start := 0, selectedSphere := -1, score := 0\<rparr> =
     \<lparr>GameState = False, selectedSphere = -1, collider = True, start = 0,
            duration = 61, score = 0\<rparr>" "score example_active = 5"
    by (simp_all add: example_active_def)
  have el: "elapsed 1000 ?inp example_active = 61" by (simp add: example_elapsed)
  note t = timeout_before_hit[OF example_active_inv g e, THEN conjunct1]
  have "renderScene float32_round 1000 ?inp example_active =
     Done (\<lparr>GameState = False, selectedSphere = -1, collider = True, start = 0,
            duration = 61, score = 0\<rparr>, [GameOver 5])"
    using t example_collision_touching[of 61000] by (simp only: el r simp_thms)
  with e g example_active_inv example_collision_touching[of 61000] show ?thesis by blast
qed

section \<open>The score\<close>

text \<open>
  C6, as amended. Across a call that a round enters and leaves running, the score does
  not decrease: it stays or grows by one. A call that starts a round leaves the score at
  0, or at 1 when the same call registers a hit on the new target. A call that ends a
  round leaves the score at 0: line 889 resets the score there as well, not only where a
  round starts. A call that neither starts nor ends a round never lowers the score.
\<close>

theorem score_changes:
  assumes "game_inv s" and "renderScene fl cps inp s = Done (s', out)"
  shows "(GameState s \<and> GameState s' \<longrightarrow> score s \<le> score s' \<and> score s' \<le> score s + 1) \<and>
         (GameStart \<in> set out \<longrightarrow>
            \<not> GameState s \<and> (score s' = 0 \<or> score s' = 1 \<and> Collide 1 \<in> set out)) \<and>
         ((\<exists>k. GameOver k \<in> set out) \<longrightarrow> \<not> GameState s' \<and> score s' = 0) \<and>
         (GameStart \<notin> set out \<and> (\<forall>k. GameOver k \<notin> set out) \<longrightarrow>
            score s \<le> score s' \<and> score s' \<le> score s + 1)"
proof (cases "GameState s")
  case True
  with assms(1) have v: "0 \<le> selectedSphere s" "selectedSphere s < 125" "\<not> collider s"
    by (auto simp: game_inv_def)
  from assms(2) True show ?thesis
    unfolding frame_active[OF True v]
    by (auto split: if_splits option.splits dest!: random_Highlight_Some)
next
  case False
  with assms(1) have m: "selectedSphere s = -1" by (auto simp: game_inv_def)
  show ?thesis
  proof (cases "trigger_touched (input_start inp)")
    case quiet: False
    from assms(2) False show ?thesis
      unfolding frame_idle_quiet[OF False quiet] by auto
  next
    case True
    from assms(2) False show ?thesis
      unfolding frame_idle_start[OF False True m]
      by (auto simp: started_def split: if_splits option.splits dest!: random_Highlight_Some)
  qed
qed

theorem score_changes_witness:
  "game_inv example_active \<and>
   renderScene float32_round 1000 (example_frame (1, 1, 1) None 60000) example_active =
     Done (\<lparr>GameState = False, selectedSphere = -1, collider = False, start = 0,
            duration = 60, score = 0\<rparr>, [GameOver 5]) \<and>
   GameOver 5 \<in> set [GameOver 5] \<and>
   score \<lparr>GameState = False, selectedSphere = -1, collider = False, start = 0,
            duration = 60, score = 0\<rparr> = 0"
proof -
  note t = score_changes[OF example_active_inv example_timeout_quiet]
  from t have "score \<lparr>GameState = False, selectedSphere = -1, collider = False, start = 0,
            duration = 60, score = 0\<rparr> = 0" by simp
  with example_active_inv example_timeout_quiet show ?thesis by simp
qed

theorem score_reset_at_timeout_counterexample:
  "GameState example_active \<and> score example_active = 5 \<and>
   renderScene float32_round 1000 (example_frame (1, 1, 1) None 60000) example_active =
     Done (\<lparr>GameState = False, selectedSphere = -1, collider = False, start = 0,
            duration = 60, score = 0\<rparr>, [GameOver 5]) \<and>
   GameStart \<notin> set [GameOver 5]"
  using example_timeout_quiet by (simp add: example_active_def)

section \<open>Keys\<close>

text \<open>
  C9, as amended. The handler of the application recognizes two keys, and only when
  pressed: escape raises the close flag of the window, and R recentres the tracking
  origin of the runtime. A key event with any other key, or with an action other than a
  press, leaves the window, the session and the game as they were. The handler of the
  base class \<^verbatim>\<open>GlfwApp\<close> alone recognizes only escape.
\<close>

theorem onKey_recognized_keys:
  "(key \<noteq> GLFW_KEY_ESCAPE \<and> key \<noteq> GLFW_KEY_R \<longrightarrow>
      RiftApp_onKey key scancode action mods a = a) \<and>
   (action \<noteq> GLFW_PRESS \<longrightarrow> RiftApp_onKey key scancode action mods a = a) \<and>
   RiftApp_onKey GLFW_KEY_ESCAPE scancode GLFW_PRESS mods a = a\<lparr>windowShouldClose := True\<rparr> \<and>
   RiftApp_onKey GLFW_KEY_R scancode GLFW_PRESS mods a =
     a\<lparr>recenterings := Suc (recenterings a)\<rparr> \<and>
   (key \<noteq> GLFW_KEY_ESCAPE \<longrightarrow> GlfwApp_onKey key scancode action mods a = a)"
  by (simp add: RiftApp_onKey_def GlfwApp_onKey_def GLFW_KEY_R_def GLFW_KEY_ESCAPE_def)

theorem onKey_recognized_keys_witness:
  "(65 :: int) \<noteq> GLFW_KEY_ESCAPE \<and> (65 :: int) \<noteq> GLFW_KEY_R \<and>
   RiftApp_onKey 65 30 GLFW_PRESS 0
     \<lparr>windowShouldClose = False, recenterings = 0, game = example_active\<rparr> =
     \<lparr>windowShouldClose = False, recenterings = 0, game = example_active\<rparr> \<and>
   (0 :: int) \<noteq> GLFW_PRESS \<and>
   RiftApp_onKey GLFW_KEY_R 19 0 0
     \<lparr>windowShouldClose = False, recenterings = 0, game = example_active\<rparr> =
     \<lparr>windowShouldClose = False, recenterings = 0, game = example_active\<rparr>"
  using onKey_recognized_keys[of 65 30 GLFW_PRESS 0
      "\<lparr>windowShouldClose = False, recenterings = 0, game = example_active\<rparr>"]
    onKey_recognized_keys[of GLFW_KEY_R 19 0 0
      "\<lparr>windowShouldClose = False, recenterings = 0, game = example_active\<rparr>"]
  by (simp add: GLFW_KEY_R_def GLFW_KEY_ESCAPE_def GLFW_PRESS_def)

theorem onKey_R_counterexample:
  "GLFW_KEY_R \<noteq> GLFW_KEY_ESCAPE \<and>
   RiftApp_onKey GLFW_KEY_R 19 GLFW_PRESS 0
     \<lparr>windowShouldClose = False, recenterings = 0, game = example_active\<rparr> =
     \<lparr>windowShouldClose = False, recenterings = 1, game = example_active\<rparr> \<and>
   \<lparr>windowShouldClose = False, recenterings = 1, game = example_active\<rparr> \<noteq>
     \<lparr>windowShouldClose = False, recenterings = 0, game = example_active\<rparr>"
  by (simp add: RiftApp_onKey_def GLFW_KEY_R_def GLFW_KEY_ESCAPE_def)

section \<open>Queries that fail\<close>

lemma failed_queries_of_call:
  assumes "game_inv s"
  shows "(input_grab inp = None \<longrightarrow> renderScene_grab fl inp = mat4_default inp) \<and>
         (input_start inp = None \<longrightarrow>
            renderScene_start inp s = Some (s, 0, []) \<and>
            (\<forall>s' out. renderScene fl cps inp s = Done (s', out) \<longrightarrow> GameStart \<notin> set out)) \<and>
         (input_hit inp = None \<longrightarrow>
            (\<exists>s' out. renderScene fl cps inp s = Done (s', out) \<and> (\<forall>k. Collide k \<notin> set out))) \<and>
         (input_start inp = None \<and> input_hit inp = None \<longrightarrow>
            renderScene fl cps inp s =
              (if GameState s
               then (if 60 \<le> elapsed cps inp s
                     then Done (s\<lparr>duration := elapsed cps inp s, GameState := False,
                                  start := 0, selectedSphere := -1, score := 0\<rparr>,
                                [GameOver (score s)])
                     else Done (s\<lparr>duration := elapsed cps inp s\<rparr>, []))
               else Done (s, []))) \<and>
         (\<forall>q. Touches q AND ovrTouch_RIndexTrigger = 0 \<longrightarrow>
            renderScene fl cps (inp\<lparr>input_start := None, input_hit := None\<rparr>) s =
            renderScene fl cps (inp\<lparr>input_start := Some q, input_hit := Some q\<rparr>) s)"
proof -
  have e: "\<forall>q. Touches q AND ovrTouch_RIndexTrigger = 0 \<longrightarrow>
            renderScene fl cps (inp\<lparr>input_start := None, input_hit := None\<rparr>) s =
            renderScene fl cps (inp\<lparr>input_start := Some q, input_hit := Some q\<rparr>) s"
    using failed_like_untouched[OF assms] by blast
  have grab: "input_grab inp = None \<longrightarrow> renderScene_grab fl inp = mat4_default inp"
    by (simp add: renderScene_grab_def)
  have nohit: "\<not> collision fl inp t" if "input_hit inp = None" for t
    using that by (simp add: collision_def trigger_touched_def)
  have quiet: "\<not> trigger_touched (input_start inp)" if "input_start inp = None"
    using that by (simp add: trigger_touched_def)
  show ?thesis
  proof (cases "GameState s")
    case True
    with assms have v: "0 \<le> selectedSphere s" "selectedSphere s < 125" "\<not> collider s"
      by (auto simp: game_inv_def)
    note fa = frame_active[OF True v]
    have a: "input_start inp = None \<longrightarrow>
            renderScene_start inp s = Some (s, 0, []) \<and>
            (\<forall>s' out. renderScene fl cps inp s = Done (s', out) \<longrightarrow> GameStart \<notin> set out)"
      unfolding fa
      by (auto simp: start_block_active[OF True] split: if_splits option.splits)
    have b: "input_hit inp = None \<longrightarrow>
            (\<exists>s' out. renderScene fl cps inp s = Done (s', out) \<and> (\<forall>k. Collide k \<notin> set out))"
      unfolding fa by (auto simp: nohit)
    have same: "s\<lparr>collider := False, duration := x\<rparr> = s\<lparr>duration := x\<rparr>" for x
      using v(3) by simp
    have c: "input_start inp = None \<and> input_hit inp = None \<longrightarrow>
            renderScene fl cps inp s =
              (if GameState s
               then (if 60 \<le> elapsed cps inp s
                     then Done (s\<lparr>duration := elapsed cps inp s, GameState := False,
                                  start := 0, selectedSphere := -1, score := 0\<rparr>,
                                [GameOver (score s)])
                     else Done (s\<lparr>duration := elapsed cps inp s\<rparr>, []))
               else Done (s, []))"
      unfolding fa using True by (auto simp: nohit same)
    from grab a b c e show ?thesis by blast
  next
    case False
    with assms have m: "selectedSphere s = -1" by (auto simp: game_inv_def)
    have a: "input_start inp = None \<longrightarrow>
            renderScene_start inp s = Some (s, 0, []) \<and>
            (\<forall>s' out. renderScene fl cps inp s = Done (s', out) \<longrightarrow> GameStart \<notin> set out)"
      by (auto simp: start_block_quiet[OF quiet] frame_idle_quiet[OF False quiet])
    have b: "input_hit inp = None \<longrightarrow>
            (\<exists>s' out. renderScene fl cps inp s = Done (s', out) \<and> (\<forall>k. Collide k \<notin> set out))"
    proof (cases "trigger_touched (input_start inp)")
      case True
      show ?thesis unfolding frame_idle_start[OF False True m] by (auto simp: nohit)
    next
      case q: False
      show ?thesis unfolding frame_idle_quiet[OF False q] by simp
    qed
    have c: "input_start inp = None \<and> input_hit inp = None \<longrightarrow>
            renderScene fl cps inp s =
              (if GameState s
               then (if 60 \<le> elapsed cps inp s
                     then Done (s\<lparr>duration := elapsed cps inp s, GameState := False,
                                  start := 0, selectedSphere := -1, score := 0\<rparr>,
                                [GameOver (score s)])
                     else Done (s\<lparr>duration := elapsed cps inp s\<rparr>, []))
               else Done (s, []))"
      using False by (auto simp: frame_idle_quiet[OF False quiet])
    from grab a b c e show ?thesis by blast
  qed
qed


lemma failed_grab_like_released:
  assumes "input_grab inp = None" and "mat4_default inp = mat4_identity"
    and "Buttons q AND ovrButton_X = 0"
  shows "renderScene fl cps inp s = renderScene fl cps (inp\<lparr>input_grab := Some q\<rparr>) s"
proof -
  let ?b = "inp\<lparr>input_grab := Some q\<rparr>"
  have g: "renderScene_grab fl ?b = renderScene_grab fl inp"
    using assms by (simp add: renderScene_grab_def)
  have st: "renderScene_start ?b s = renderScene_start inp s"
    by (simp add: renderScene_start_def split: option.splits)
  have ac: "renderScene_active fl cps ?b m t = renderScene_active fl cps inp m t" for m t
    by (simp add: renderScene_active_def split: option.splits)
  have dr: "draws ?b = draws inp" by simp
  show ?thesis unfolding renderScene_def g st ac dr ..
qed

lemma poll_keeps_game: "glfwPollEvents evs a = Normal a1 \<Longrightarrow> game a1 = game a"
proof (induction evs a rule: glfwPollEvents.induct)
  case (1 a)
  then show ?case by simp
next
  case (2 key scancode action mods es a)
  then show ?case
    by (auto simp: RiftApp_onKey_def GlfwApp_onKey_def split: if_splits)
next
  case (3 error description es a)
  then show ?case by (simp add: ErrorCallback_def)
qed

lemma poll_throws:
  "ErrorEvent error description \<in> set evs \<Longrightarrow> \<exists>msg. glfwPollEvents evs a = Throws msg"
  by (induction evs a rule: glfwPollEvents.induct) (auto simp: ErrorCallback_def)

lemma poll_returns:
  "\<forall>error description. ErrorEvent error description \<notin> set evs \<Longrightarrow>
     \<exists>a1. glfwPollEvents evs a = Normal a1"
  by (induction evs a rule: glfwPollEvents.induct) auto

lemma two_eyes_return:
  assumes "game_inv g" and "input_hit l = None" and "input_hit r = None"
  shows "\<exists>g' out. run_frames fl cps [l, r] g = Done (g', out)"
proof -
  from failed_queries_of_call[OF assms(1), of l fl cps] assms(2)
  obtain g1 out1 where one: "renderScene fl cps l g = Done (g1, out1)" by blast
  from frame_inv[OF assms(1) one] have "game_inv g1" by simp
  from failed_queries_of_call[OF this, of r fl cps] assms(3)
  obtain g2 out2 where two: "renderScene fl cps r g1 = Done (g2, out2)" by blast
  from one two show ?thesis by simp
qed

lemma pass_continues:
  assumes "\<forall>error description. ErrorEvent error description \<notin> set (polled p)"
    and "input_hit (left_eye p) = None" and "input_hit (right_eye p) = None"
    and "game_inv (game a)"
  shows "(swap_failure p = None \<longrightarrow> (\<exists>a' out. run_pass fl cps p a = Normal (Done (a', out)))) \<and>
         (\<forall>error description. swap_failure p = Some (error, description) \<longrightarrow>
            run_pass fl cps p a = Throws description)"
proof -
  from poll_returns[OF assms(1)] obtain a1 where po: "glfwPollEvents (polled p) a = Normal a1"
    by blast
  from poll_keeps_game[OF po] assms(4) have "game_inv (game a1)" by simp
  from two_eyes_return[OF this assms(2,3)] obtain g out where
    "run_frames fl cps [left_eye p, right_eye p] (game a1) = Done (g, out)" by blast
  with po show ?thesis
    by (auto simp: run_pass_def finishFrame_def ErrorCallback_def)
qed

lemma pass_throws:
  assumes "ErrorEvent error description \<in> set (polled p)"
  shows "\<exists>msg. run_pass fl cps p a = Throws msg"
  using poll_throws[OF assms, of a] by (auto simp: run_pass_def)

lemma float32_round_minus_1: "float32_round (- 1) = - 1"
  using float32_round_fixed[of "-8388608" 23] by simp

lemma center_distance_unit: "center_distance float32_round (0, 0, 0) (1, 0, 0) = 1"
  by (simp add: center_distance_def float32_round_0 float32_round_minus_1 float32_round_1)

lemma transform_point_shift:
  "transform_point float32_round (translate (1, 0, 0)) (0, 0, 0) = (1, 0, 0)"
  by (simp add: transform_point_def translate_def mat4_mul_vec4_def vec4_add_def
      vec4_scale_def float32_round_0 float32_round_1)

lemma example_far_released:
  "renderScene float32_round 1000 (example_frame (1, 0, 0) (Some touching) 30000)
     example_active =
   Done (\<lparr>GameState = True, selectedSphere = 0, collider = False, start = 0,
          duration = 30, score = 5\<rparr>, [])"
proof -
  let ?inp = "example_frame (1, 0, 0) (Some touching) 30000"
  have "target_distance float32_round ?inp example_active = 1"
    by (simp only: example_distance_touching center_distance_unit)
  then have nc: "\<not> collision float32_round ?inp example_active"
    by (simp add: collision_def float_0_055_def)
  show ?thesis
    unfolding frame_active[OF example_active_valid] using nc
    by (simp add: example_elapsed) (simp add: example_active_def)
qed

lemma example_far_failed_grab:
  "renderScene float32_round 1000
     ((example_frame (1, 0, 0) (Some touching) 30000)
        \<lparr>input_grab := None, mat4_default := translate (1, 0, 0)\<rparr>)
     example_active =
   Done (\<lparr>GameState = True, selectedSphere = 7, collider = False, start = 0,
          duration = 30, score = 6\<rparr>, [Collide 6])"
proof -
  let ?inp = "(example_frame (1, 0, 0) (Some touching) 30000)
        \<lparr>input_grab := None, mat4_default := translate (1, 0, 0)\<rparr>"
  have g: "renderScene_grab float32_round ?inp = translate (1, 0, 0)"
    by (simp add: renderScene_grab_def)
  have h: "handPosition_Right ?inp = (1, 0, 0)" by (simp add: example_frame_def)
  have p: "spheres_positions float32_round ! nat (selectedSphere example_active) = (0, 0, 0)"
    by (simp add: example_active_def spheres_positions_0 float32_round_0)
  have "target_distance float32_round ?inp example_active = 0"
    unfolding target_distance_def g p h transform_point_shift
    by (simp add: center_distance_same float32_round_0)
  moreover have "trigger_touched (input_hit ?inp)"
    by (simp add: example_frame_def trigger_touched_touching)
  ultimately have c: "collision float32_round ?inp example_active"
    by (simp add: collision_def float_0_055_positive)
  have el: "elapsed 1000 ?inp example_active = 30"
    by (simp add: elapsed_def example_frame_def example_active_def)
  have r: "random_Highlight (draws ?inp) 0 example_active =
      Some (example_active\<lparr>selectedSphere := 7, collider := False\<rparr>, 1)"
    by (simp add: random_Highlight_def random_number_loop_take example_frame_def
        example_active_def)
  have fa: "renderScene float32_round 1000 ?inp example_active =
      (case random_Highlight (draws ?inp) 0 example_active of
         None \<Rightarrow> Hang
       | Some (s', n') \<Rightarrow>
           Done (s'\<lparr>duration := elapsed 1000 ?inp example_active,
                   score := score example_active + 1\<rparr>,
                 [Collide (score example_active + 1)]))"
    unfolding frame_active[OF example_active_valid] using c by (simp add: el)
  show ?thesis
    unfolding fa r by (simp add: el) (simp add: example_active_def)
qed

text \<open>
  C8, as amended. A query of the controller state that fails is not fatal and its block is
  skipped. When the query of line 815 fails no pose of the off hand is read: the local
  matrix keeps what its default constructor left, and where that is the identity the call
  does what it does when the query succeeds with button X released. When the query of
  line 841 fails no round starts. When the query of line 870 fails no hit is registered
  and the call returns. When the queries of lines 841 and 870 both fail, only the clock
  acts on the game: a running round that has lasted 60 seconds ends, and otherwise
  \<open>GameState\<close>, \<open>score\<close> and \<open>selectedSphere\<close> leave the call as they entered it; such a
  call does to the game what the same call does when both queries succeed and report the
  trigger untouched. A pass of the frame loop in which the queries of line 870 fail for
  both eyes and the windowing library reports no failure completes. A failure that the
  windowing library reports during a pass is fatal: the error callback throws.
\<close>

theorem failed_query_is_no_input:
  assumes "game_inv s"
  shows "(input_grab inp = None \<longrightarrow> renderScene_grab fl inp = mat4_default inp) \<and>
         (input_start inp = None \<longrightarrow>
            renderScene_start inp s = Some (s, 0, []) \<and>
            (\<forall>s' out. renderScene fl cps inp s = Done (s', out) \<longrightarrow> GameStart \<notin> set out)) \<and>
         (input_hit inp = None \<longrightarrow>
            (\<exists>s' out. renderScene fl cps inp s = Done (s', out) \<and> (\<forall>k. Collide k \<notin> set out))) \<and>
         (input_start inp = None \<and> input_hit inp = None \<longrightarrow>
            renderScene fl cps inp s =
              (if GameState s
               then (if 60 \<le> elapsed cps inp s
                     then Done (s\<lparr>duration := elapsed cps inp s, GameState := False,
                                  start := 0, selectedSphere := -1, score := 0\<rparr>,
                                [GameOver (score s)])
                     else Done (s\<lparr>duration := elapsed cps inp s\<rparr>, []))
               else Done (s, []))) \<and>
         (\<forall>q. Touches q AND ovrTouch_RIndexTrigger = 0 \<longrightarrow>
            renderScene fl cps (inp\<lparr>input_start := None, input_hit := None\<rparr>) s =
            renderScene fl cps (inp\<lparr>input_start := Some q, input_hit := Some q\<rparr>) s) \<and>
         (input_grab inp = None \<and> mat4_default inp = mat4_identity \<longrightarrow>
            (\<forall>q. Buttons q AND ovrButton_X = 0 \<longrightarrow>
               renderScene fl cps inp s = renderScene fl cps (inp\<lparr>input_grab := Some q\<rparr>) s)) \<and>
         (\<forall>p a. (\<forall>error description. ErrorEvent error description \<notin> set (polled p)) \<and>
             swap_failure p = None \<and> input_hit (left_eye p) = None \<and>
             input_hit (right_eye p) = None \<and> game_inv (game a) \<longrightarrow>
             (\<exists>a' out. run_pass fl cps p a = Normal (Done (a', out)))) \<and>
         (\<forall>p a error description. ErrorEvent error description \<in> set (polled p) \<longrightarrow>
             (\<exists>msg. run_pass fl cps p a = Throws msg)) \<and>
         (\<forall>p a error description.
             (\<forall>e d. ErrorEvent e d \<notin> set (polled p)) \<and>
             swap_failure p = Some (error, description) \<and> input_hit (left_eye p) = None \<and>
             input_hit (right_eye p) = None \<and> game_inv (game a) \<longrightarrow>
             run_pass fl cps p a = Throws description)"
proof -
  note five = failed_queries_of_call[OF assms, of inp fl cps]
  have six: "input_grab inp = None \<and> mat4_default inp = mat4_identity \<longrightarrow>
            (\<forall>q. Buttons q AND ovrButton_X = 0 \<longrightarrow>
               renderScene fl cps inp s = renderScene fl cps (inp\<lparr>input_grab := Some q\<rparr>) s)"
    using failed_grab_like_released by blast
  have seven: "\<forall>p a. (\<forall>error description. ErrorEvent error description \<notin> set (polled p)) \<and>
             swap_failure p = None \<and> input_hit (left_eye p) = None \<and>
             input_hit (right_eye p) = None \<and> game_inv (game a) \<longrightarrow>
             (\<exists>a' out. run_pass fl cps p a = Normal (Done (a', out)))"
    using pass_continues by blast
  have eight: "\<forall>p a error description. ErrorEvent error description \<in> set (polled p) \<longrightarrow>
             (\<exists>msg. run_pass fl cps p a = Throws msg)"
    using pass_throws by blast
  have nine: "\<forall>p a error description.
             (\<forall>e d. ErrorEvent e d \<notin> set (polled p)) \<and>
             swap_failure p = Some (error, description) \<and> input_hit (left_eye p) = None \<and>
             input_hit (right_eye p) = None \<and> game_inv (game a) \<longrightarrow>
             run_pass fl cps p a = Throws description"
    using pass_continues by blast
  from five six seven eight nine show ?thesis by (intro conjI) blast+
qed

theorem failed_query_is_no_input_witness:
  "game_inv example_active \<and>
   input_grab (example_frame (0, 0, 0) None 2000) = None \<and>
   input_start (example_frame (0, 0, 0) None 2000) = None \<and>
   input_hit (example_frame (0, 0, 0) None 2000) = None \<and>
   renderScene float32_round 1000 (example_frame (0, 0, 0) None 2000) example_active =
     Done (\<lparr>GameState = True, selectedSphere = 0, collider = False, start = 0,
            duration = 2, score = 5\<rparr>, [])"
proof -
  let ?inp = "example_frame (0, 0, 0) None 2000"
  have q: "input_grab ?inp = None" "input_start ?inp = None" "input_hit ?inp = None"
    by (simp_all add: example_frame_def)
  have el: "elapsed 1000 ?inp example_active = 2" by (simp add: example_elapsed)
  have r: "example_active\<lparr>duration := 2\<rparr> =
      \<lparr>GameState = True, selectedSphere = 0, collider = False, start = 0,
            duration = 2, score = 5\<rparr>"
    by (simp add: example_active_def)
  note t = failed_query_is_no_input[OF example_active_inv,
      where inp = ?inp and cps = 1000 and fl = float32_round,
      THEN conjunct2, THEN conjunct2, THEN conjunct2, THEN conjunct1, rule_format,
      OF conjI[OF q(2,3)]]
  have "renderScene float32_round 1000 ?inp example_active =
     Done (\<lparr>GameState = True, selectedSphere = 0, collider = False, start = 0,
            duration = 2, score = 5\<rparr>, [])"
    using t by (simp add: el example_active_valid r)
  with q example_active_inv show ?thesis by simp
qed

theorem fatal_error_and_stale_matrix_counterexample:
  "run_pass float32_round 1000
     \<lparr>polled = [ErrorEvent 65544 ''failure''],
      left_eye = example_frame (1, 0, 0) None 30000,
      right_eye = example_frame (1, 0, 0) None 30000, swap_failure = None\<rparr>
     \<lparr>windowShouldClose = False, recenterings = 0, game = example_active\<rparr> =
     Throws ''failure'' \<and>
   renderScene float32_round 1000 (example_frame (1, 0, 0) (Some touching) 30000)
     example_active =
     Done (\<lparr>GameState = True, selectedSphere = 0, collider = False, start = 0,
            duration = 30, score = 5\<rparr>, []) \<and>
   renderScene float32_round 1000
     ((example_frame (1, 0, 0) (Some touching) 30000)
        \<lparr>input_grab := None, mat4_default := translate (1, 0, 0)\<rparr>)
     example_active =
     Done (\<lparr>GameState = True, selectedSphere = 7, collider = False, start = 0,
            duration = 30, score = 6\<rparr>, [Collide 6])"
  using example_far_released example_far_failed_grab
  by (simp add: run_pass_def ErrorCallback_def)

section \<open>The selected sphere between calls\<close>

text \<open>
  C10. After any sequence of calls of \<^verbatim>\<open>renderScene\<close> from the state that the
  constructor leaves, \<open>GameState\<close> is false if and only if \<open>selectedSphere\<close> is \<open>-1\<close>,
  and while \<open>GameState\<close> is true \<open>selectedSphere\<close> lies in \<open>[0, 125)\<close>. No call reads
  \<^verbatim>\<open>spheres_positions\<close> outside its 125 elements.
\<close>

theorem selection_matches_game_state:
  "run_frames fl cps inps (ExampleApp_init c t d) \<noteq> OutOfBounds \<and>
   (\<forall>s out. run_frames fl cps inps (ExampleApp_init c t d) = Done (s, out) \<longrightarrow>
      (GameState s = False \<longleftrightarrow> selectedSphere s = -1) \<and>
      (GameState s \<longrightarrow>
         0 \<le> selectedSphere s \<and> selectedSphere s < 125 \<and>
         sphere_position fl (selectedSphere s) =
           Some (spheres_positions fl ! nat (selectedSphere s))))"
proof -
  have i: "game_inv (ExampleApp_init c t d)" by (rule example_idle_inv)
  have "(GameState s = False \<longleftrightarrow> selectedSphere s = -1) \<and>
      (GameState s \<longrightarrow>
         0 \<le> selectedSphere s \<and> selectedSphere s < 125 \<and>
         sphere_position fl (selectedSphere s) =
           Some (spheres_positions fl ! nat (selectedSphere s)))"
    if "run_frames fl cps inps (ExampleApp_init c t d) = Done (s, out)" for s out
  proof -
    from run_frames_inv[OF i that] have "game_inv s" by simp
    then show ?thesis by (auto simp: game_inv_def sphere_position_in_bounds)
  qed
  with run_frames_in_bounds[OF i] show ?thesis by blast
qed

theorem selection_matches_game_state_witness:
  "run_frames float32_round 1000
     [(example_frame (1, 1, 1) (Some touching) 500)\<lparr>input_hit := None\<rparr>,
      example_frame (1, 1, 1) None 700]
     (ExampleApp_init True 3 0) =
     Done (\<lparr>GameState = True, selectedSphere = 7, collider = False, start = 500,
            duration = 1 / 5, score = 0\<rparr>, [GameStart]) \<and>
   sphere_position float32_round 7 = Some (float_0_14 * 2, float_0_14, 0)"
proof -
  let ?inps = "[(example_frame (1, 1, 1) (Some touching) 500)\<lparr>input_hit := None\<rparr>,
      example_frame (1, 1, 1) None 700]"
  let ?s = "\<lparr>GameState = True, selectedSphere = 7, collider = False, start = 500,
            duration = 1 / 5, score = 0\<rparr>"
  have r: "run_frames float32_round 1000 ?inps (ExampleApp_init True 3 0) =
      Done (?s, [GameStart])"
    by (simp add: example_first_call example_second_call) (simp add: example_round_def)
  from selection_matches_game_state[of float32_round 1000 ?inps True 3 0, THEN conjunct2,
      rule_format, OF r]
  have "sphere_position float32_round 7 = Some (spheres_positions float32_round ! nat 7)"
    by simp
  with r show ?thesis by (simp add: spheres_positions_7)
qed

end
